theory Spec2Isabelle
  imports Complex_Main "HOL-Library.Word"
begin

section \<open>Floating-point values\<close>

text \<open>
  The simulation computes with IEEE double-precision numbers (Python \<open>float\<close>, numpy
  \<open>float64\<close>). A value is finite, one of the two infinities, or not-a-number. The
  special values follow IEEE 754 as numpy applies it: an operation never raises, a
  not-a-number operand gives not-a-number, and a division by zero gives an infinity
  (or not-a-number for \<open>0 / 0\<close>). A quotient of finite values and a number read from
  text are rounded to the nearest double, so that they underflow to zero and overflow
  to an infinity as they do in the program. Finite sums, products and square roots are
  idealised as exact reals, and the sign of zero is not modelled.
\<close>

datatype float64 = Fin real | PInf | NInf | NaN

fun fneg :: "float64 \<Rightarrow> float64" where
  "fneg (Fin a) = Fin (- a)"
| "fneg PInf = NInf"
| "fneg NInf = PInf"
| "fneg NaN = NaN"

fun fadd :: "float64 \<Rightarrow> float64 \<Rightarrow> float64" where
  "fadd NaN _ = NaN"
| "fadd _ NaN = NaN"
| "fadd (Fin a) (Fin b) = Fin (a + b)"
| "fadd PInf NInf = NaN"
| "fadd NInf PInf = NaN"
| "fadd PInf _ = PInf"
| "fadd NInf _ = NInf"
| "fadd (Fin a) PInf = PInf"
| "fadd (Fin a) NInf = NInf"

definition fsub :: "float64 \<Rightarrow> float64 \<Rightarrow> float64" where
  "fsub a b = fadd a (fneg b)"

text \<open>The sign of a value that is not NaN: \<open>-1\<close>, \<open>0\<close> or \<open>1\<close>.\<close>

fun fsgn :: "float64 \<Rightarrow> int" where
  "fsgn (Fin a) = (if a < 0 then - 1 else if a = 0 then 0 else 1)"
| "fsgn PInf = 1"
| "fsgn NInf = - 1"
| "fsgn NaN = 0"

definition inf_of_sign :: "int \<Rightarrow> float64" where
  "inf_of_sign s = (if s < 0 then NInf else if s = 0 then NaN else PInf)"

fun is_inf :: "float64 \<Rightarrow> bool" where
  "is_inf PInf = True"
| "is_inf NInf = True"
| "is_inf _ = False"

fun fmul :: "float64 \<Rightarrow> float64 \<Rightarrow> float64" where
  "fmul NaN _ = NaN"
| "fmul _ NaN = NaN"
| "fmul (Fin a) (Fin b) = Fin (a * b)"
| "fmul a b = inf_of_sign (fsgn a * fsgn b)"

text \<open>
  Rounding to the nearest double, ties to even. \<open>round_half_even\<close> rounds a
  non-negative real to the nearest natural number. The doubles whose magnitude lies
  between two successive powers of two, \<open>2 ^ e\<close> and \<open>2 ^ (e + 1)\<close>, are the multiples
  of \<open>2 ^ (e - 52)\<close>; below \<open>2 ^ (- 1022)\<close> they are the multiples of \<open>2 ^ (- 1074)\<close>.
  A result of magnitude \<open>2 ^ 1024\<close> or more is an infinity.
\<close>

definition round_half_even :: "real \<Rightarrow> nat" where
  "round_half_even r =
     (let f = \<lfloor>r\<rfloor>; d = r - of_int f
      in nat (if d < 1 / 2 then f else if 1 / 2 < d then f + 1 else if even f then f else f + 1))"

definition expo :: "real \<Rightarrow> int" where
  "expo x = max \<lfloor>log 2 \<bar>x\<bar>\<rfloor> (- 1022)"

definition ulp :: "real \<Rightarrow> real" where
  "ulp x = 2 powr (of_int (expo x) - 52)"

definition huge :: real where
  "huge = 2 ^ 1024"

definition round64 :: "real \<Rightarrow> float64" where
  "round64 x =
     (if x = 0 then Fin 0
      else (let q = round_half_even (\<bar>x\<bar> / ulp x)
            in if huge \<le> real q * ulp x then (if x < 0 then NInf else PInf)
               else Fin (sgn x * (real q * ulp x))))"

fun fdiv :: "float64 \<Rightarrow> float64 \<Rightarrow> float64" where
  "fdiv NaN _ = NaN"
| "fdiv _ NaN = NaN"
| "fdiv (Fin a) (Fin b) = (if b = 0 then inf_of_sign (fsgn (Fin a)) else round64 (a / b))"
| "fdiv (Fin a) _ = Fin 0"
| "fdiv a b = (if is_inf b then NaN else inf_of_sign (fsgn a * (if fsgn b < 0 then - 1 else 1)))"

fun fsqrt :: "float64 \<Rightarrow> float64" where
  "fsqrt (Fin a) = (if a < 0 then NaN else Fin (sqrt a))"
| "fsqrt PInf = PInf"
| "fsqrt NInf = NaN"
| "fsqrt NaN = NaN"

text \<open>IEEE comparison: every comparison with NaN is false.\<close>

fun fle :: "float64 \<Rightarrow> float64 \<Rightarrow> bool" where
  "fle NaN _ = False"
| "fle _ NaN = False"
| "fle (Fin a) (Fin b) = (a \<le> b)"
| "fle NInf _ = True"
| "fle _ PInf = True"
| "fle _ _ = False"

fun flt :: "float64 \<Rightarrow> float64 \<Rightarrow> bool" where
  "flt NaN _ = False"
| "flt _ NaN = False"
| "flt (Fin a) (Fin b) = (a < b)"
| "flt PInf _ = False"
| "flt _ NInf = False"
| "flt _ _ = True"

text \<open>\<open>np.maximum\<close>: the larger operand, and NaN as soon as one operand is NaN.\<close>

fun fmaximum :: "float64 \<Rightarrow> float64 \<Rightarrow> float64" where
  "fmaximum NaN _ = NaN"
| "fmaximum _ NaN = NaN"
| "fmaximum a b = (if fle b a then a else b)"

section \<open>Arrays\<close>

text \<open>
  A two-dimensional numpy array is a list of rows. The operations below are the
  element-wise (broadcasting) forms the program uses.
\<close>

type_synonym ndarray = "float64 list list"

definition shape :: "ndarray \<Rightarrow> nat \<Rightarrow> nat \<Rightarrow> bool" where
  "shape A m n = (length A = m \<and> list_all (\<lambda>row. length row = n) A)"

definition np_map :: "(float64 \<Rightarrow> float64) \<Rightarrow> ndarray \<Rightarrow> ndarray" where
  "np_map f A = map (map f) A"

definition np_map2 :: "(float64 \<Rightarrow> float64 \<Rightarrow> float64) \<Rightarrow> ndarray \<Rightarrow> ndarray \<Rightarrow> ndarray" where
  "np_map2 f A B = map2 (map2 f) A B"

text \<open>
  \<open>np.linspace(start, stop, num)\<close> with the default \<open>endpoint=True\<close>: the samples
  \<open>i * step + start\<close> with \<open>step = (stop - start) / (num - 1)\<close>, the last one set
  to \<open>stop\<close>.
\<close>

definition linspace :: "float64 \<Rightarrow> float64 \<Rightarrow> nat \<Rightarrow> float64 list" where
  "linspace start stop num =
     (if num = 0 then []
      else if num = 1 then [start]
      else (let step = fdiv (fsub stop start) (Fin (real (num - 1)))
            in map (\<lambda>i. fadd (fmul (Fin (real i)) step) start) [0..<num - 1] @ [stop]))"

text \<open>
  \<open>np.meshgrid(x, y)\<close> with the default \<open>indexing='xy'\<close>: both results have
  \<open>len(y)\<close> rows and \<open>len(x)\<close> columns, \<open>X[i][j] = x[j]\<close> and \<open>Y[i][j] = y[i]\<close>.
\<close>

definition meshgrid :: "float64 list \<Rightarrow> float64 list \<Rightarrow> ndarray \<times> ndarray" where
  "meshgrid xs ys = (map (\<lambda>_. xs) ys, map (\<lambda>b. map (\<lambda>_. b) xs) ys)"

section \<open>Constants and the precomputed grid\<close>

definition GRID_SIZE :: nat where
  "GRID_SIZE = 100"

definition GRID_MAX :: float64 where
  "GRID_MAX = Fin 20"

definition INITIAL_MASS :: float64 where
  "INITIAL_MASS = Fin 10"

definition CLIP_VALUE :: float64 where
  "CLIP_VALUE = Fin (- 15)"

definition SPHERE_X :: float64 where
  "SPHERE_X = Fin 12"

definition SPHERE_Y :: float64 where
  "SPHERE_Y = Fin 5"

text \<open>The literal \<open>1e-6\<close> added to every radial distance.\<close>

definition EPS :: float64 where
  "EPS = Fin (1 / 1000000)"

text \<open>The module-level \<open>x\<close> and \<open>y\<close>: the two coordinate axes.\<close>

definition axis_x :: "float64 list" where
  "axis_x = linspace (fneg GRID_MAX) GRID_MAX GRID_SIZE"

definition axis_y :: "float64 list" where
  "axis_y = linspace (fneg GRID_MAX) GRID_MAX GRID_SIZE"

text \<open>\<open>np.sqrt(X**2 + Y**2) + 1e-6\<close>, element by element.\<close>

definition radial :: "float64 \<Rightarrow> float64 \<Rightarrow> float64" where
  "radial a b = fadd (fsqrt (fadd (fmul a a) (fmul b b))) EPS"

definition radial_field :: "ndarray \<Rightarrow> ndarray \<Rightarrow> ndarray" where
  "radial_field A B = np_map2 radial A B"

section \<open>Field evaluation\<close>

text \<open>
  Lines 30 and 31 of \<open>generate_plot_image\<close>: \<open>Z = -mass_value / R_base\<close> and
  \<open>Z_clipped = np.maximum(Z, CLIP_VALUE)\<close>.
\<close>

definition field_Z :: "float64 \<Rightarrow> ndarray \<Rightarrow> ndarray" where
  "field_Z mass_value R = np_map (\<lambda>r. fdiv (fneg mass_value) r) R"

definition field_Z_clipped :: "float64 \<Rightarrow> ndarray \<Rightarrow> ndarray" where
  "field_Z_clipped mass_value R = np_map (\<lambda>z. fmaximum z CLIP_VALUE) (field_Z mass_value R)"

section \<open>Text and bytes\<close>

text \<open>
  Decimal digits of a natural number, and Python's \<open>format(v, '.1f')\<close>: one digit
  after the point, the exact value rounded half to even, a minus sign for a negative
  value.
\<close>

definition digit_char :: "nat \<Rightarrow> char" where
  "digit_char d = char_of (48 + d)"

function str_nat :: "nat \<Rightarrow> string" where
  "str_nat n = (if n < 10 then [digit_char n] else str_nat (n div 10) @ [digit_char (n mod 10)])"
  by pat_completeness auto
termination
  by (relation "measure id") auto

fun format_1f :: "float64 \<Rightarrow> string" where
  "format_1f (Fin r) =
     (let n = round_half_even (\<bar>r\<bar> * 10)
      in (if r < 0 then ''-'' else []) @ str_nat (n div 10) @ ''.'' @ str_nat (n mod 10))"
| "format_1f PInf = ''inf''"
| "format_1f NInf = ''-inf''"
| "format_1f NaN = ''nan''"

type_synonym byte = "8 word"

text \<open>
  \<open>base64.b64encode\<close> (RFC 4648, standard alphabet, \<open>=\<close> padding). Its result is
  ASCII, so the \<open>.decode('utf-8')\<close> that follows it maps each byte to the character of
  the same code; the model produces the characters directly.
\<close>

definition b64_alphabet :: string where
  "b64_alphabet = ''ABCDEFGHIJKLMNOPQRSTUVWXYZabcdefghijklmnopqrstuvwxyz0123456789+/''"

definition b64_char :: "nat \<Rightarrow> char" where
  "b64_char i = b64_alphabet ! (i mod 64)"

fun b64encode :: "byte list \<Rightarrow> string" where
  "b64encode [] = []"
| "b64encode [a] =
     (let n = unat a * 65536
      in [b64_char (n div 262144), b64_char (n div 4096), CHR ''='', CHR ''=''])"
| "b64encode [a, b] =
     (let n = unat a * 65536 + unat b * 256
      in [b64_char (n div 262144), b64_char (n div 4096), b64_char (n div 64), CHR ''=''])"
| "b64encode (a # b # c # rest) =
     (let n = unat a * 65536 + unat b * 256 + unat c
      in [b64_char (n div 262144), b64_char (n div 4096), b64_char (n div 64), b64_char n]
         @ b64encode rest)"

section \<open>Figures and the plotting library\<close>

text \<open>
  A figure is described by what the program asks matplotlib to draw. Turning that
  description into PNG bytes is matplotlib's work, outside the repository: it is the
  parameter \<open>savefig\<close> below. It is given the figure, the format and the bounding-box
  option, and returns the bytes written to the buffer or raises. What else matplotlib
  may read while it renders, and change (its caches and settings, a clock, a random
  generator), is the hidden state: an opaque value that \<open>savefig\<close> takes and returns.
  Nothing in the model makes the bytes independent of it.
\<close>

datatype exn = Exception string

datatype artist =
  Surface ndarray ndarray ndarray string nat bool nat nat
| Line3D "float64 list" "float64 list" "float64 list" string nat string string

record axes3d =
  artists :: "artist list"
  title :: string
  xlabel :: string
  ylabel :: string
  zlabel :: string
  zlim :: "(float64 \<times> float64) option"
  legend :: bool

record figure =
  figsize :: "nat \<times> nat"
  axes :: "axes3d list"

type_synonym hidden = nat

record lib =
  savefig :: "figure \<Rightarrow> string \<Rightarrow> string \<Rightarrow> hidden \<Rightarrow> (exn + byte list) \<times> hidden"

section \<open>Process state\<close>

text \<open>
  The module-level arrays \<open>X\<close>, \<open>Y\<close> and \<open>R_base\<close>, pyplot's registry of open
  figures (figure number and figure, oldest first) and the hidden state of the
  plotting library. Figures are objects shared between the registry and the local
  variables \<open>fig\<close> and \<open>ax\<close>, so a local variable holds the figure's number and every
  drawing call updates the registry's entry.
\<close>

record state =
  X :: ndarray
  Y :: ndarray
  R_base :: ndarray
  figs :: "(nat \<times> figure) list"
  lib_state :: hidden

definition module_init :: state where
  "module_init =
     (let (X0, Y0) = meshgrid axis_x axis_y
      in \<lparr>X = X0, Y = Y0, R_base = radial_field X0 Y0, figs = [], lib_state = 0\<rparr>)"

section \<open>The pyplot and figure calls the program makes\<close>

text \<open>
  \<open>plt.figure\<close> registers a new figure under the number after the largest one in
  use (1 when none is open) and returns it. \<open>plt.close\<close> removes the figure from the
  registry. The drawing calls record what is to be drawn in the registry's entry; a
  reference to a figure that is not registered cannot arise in this program, and the
  drawing calls leave the state as it is for one.
\<close>

definition new_axes :: axes3d where
  "new_axes = \<lparr>artists = [], title = [], xlabel = [], ylabel = [], zlabel = [],
               zlim = None, legend = False\<rparr>"

definition plt_figure :: "nat \<times> nat \<Rightarrow> state \<Rightarrow> nat \<times> state" where
  "plt_figure sz s =
     (let num = Suc (foldr max (map fst (figs s)) 0)
      in (num, s\<lparr>figs := figs s @ [(num, \<lparr>figsize = sz, axes = []\<rparr>)]\<rparr>))"

definition plt_close :: "nat \<Rightarrow> state \<Rightarrow> state" where
  "plt_close fig s = s\<lparr>figs := filter (\<lambda>(k, f). k \<noteq> fig) (figs s)\<rparr>"

definition upd_fig :: "nat \<Rightarrow> (figure \<Rightarrow> figure) \<Rightarrow> state \<Rightarrow> state" where
  "upd_fig fig g s = s\<lparr>figs := map (\<lambda>(k, f). if k = fig then (k, g f) else (k, f)) (figs s)\<rparr>"

text \<open>An axes object is referred to by its figure and its position in the figure.\<close>

definition fig_add_subplot :: "nat \<Rightarrow> state \<Rightarrow> (nat \<times> nat) \<times> state" where
  "fig_add_subplot fig s =
     (let k = (case map_of (figs s) fig of None \<Rightarrow> 0 | Some f \<Rightarrow> length (axes f))
      in ((fig, k), upd_fig fig (\<lambda>f. f\<lparr>axes := axes f @ [new_axes]\<rparr>) s))"

definition upd_ax :: "nat \<times> nat \<Rightarrow> (axes3d \<Rightarrow> axes3d) \<Rightarrow> state \<Rightarrow> state" where
  "upd_ax ax g s =
     upd_fig (fst ax)
       (\<lambda>f. if snd ax < length (axes f)
            then f\<lparr>axes := (axes f)[snd ax := g (axes f ! snd ax)]\<rparr> else f) s"

definition ax_plot_surface ::
  "nat \<times> nat \<Rightarrow> ndarray \<Rightarrow> ndarray \<Rightarrow> ndarray \<Rightarrow> string \<Rightarrow> nat \<Rightarrow> bool \<Rightarrow> nat \<Rightarrow> nat \<Rightarrow>
   state \<Rightarrow> state" where
  "ax_plot_surface ax A B C cmap linewidth antialiased rstride cstride s =
     upd_ax ax (\<lambda>a. a\<lparr>artists := artists a @
       [Surface A B C cmap linewidth antialiased rstride cstride]\<rparr>) s"

definition ax_plot ::
  "nat \<times> nat \<Rightarrow> float64 list \<Rightarrow> float64 list \<Rightarrow> float64 list \<Rightarrow> string \<Rightarrow> nat \<Rightarrow> string \<Rightarrow>
   string \<Rightarrow> state \<Rightarrow> state" where
  "ax_plot ax xs ys zs fmt markersize color label s =
     upd_ax ax (\<lambda>a. a\<lparr>artists := artists a @ [Line3D xs ys zs fmt markersize color label]\<rparr>) s"

definition ax_set_title :: "nat \<times> nat \<Rightarrow> string \<Rightarrow> state \<Rightarrow> state" where
  "ax_set_title ax t s = upd_ax ax (\<lambda>a. a\<lparr>title := t\<rparr>) s"

definition ax_set_xlabel :: "nat \<times> nat \<Rightarrow> string \<Rightarrow> state \<Rightarrow> state" where
  "ax_set_xlabel ax t s = upd_ax ax (\<lambda>a. a\<lparr>xlabel := t\<rparr>) s"

definition ax_set_ylabel :: "nat \<times> nat \<Rightarrow> string \<Rightarrow> state \<Rightarrow> state" where
  "ax_set_ylabel ax t s = upd_ax ax (\<lambda>a. a\<lparr>ylabel := t\<rparr>) s"

definition ax_set_zlabel :: "nat \<times> nat \<Rightarrow> string \<Rightarrow> state \<Rightarrow> state" where
  "ax_set_zlabel ax t s = upd_ax ax (\<lambda>a. a\<lparr>zlabel := t\<rparr>) s"

definition ax_set_zlim :: "nat \<times> nat \<Rightarrow> float64 \<Rightarrow> float64 \<Rightarrow> state \<Rightarrow> state" where
  "ax_set_zlim ax lo hi s = upd_ax ax (\<lambda>a. a\<lparr>zlim := Some (lo, hi)\<rparr>) s"

definition ax_legend :: "nat \<times> nat \<Rightarrow> state \<Rightarrow> state" where
  "ax_legend ax s = upd_ax ax (\<lambda>a. a\<lparr>legend := True\<rparr>) s"

text \<open>
  \<open>fig.savefig(buf, format=..., bbox_inches=...)\<close> into a new buffer, followed by
  \<open>buf.seek(0)\<close> and \<open>buf.read()\<close>: the bytes matplotlib wrote for the figure, or its
  exception, and the state with the hidden state matplotlib left.
\<close>

definition fig_savefig :: "lib \<Rightarrow> nat \<Rightarrow> string \<Rightarrow> string \<Rightarrow> state \<Rightarrow> (exn + byte list) \<times> state" where
  "fig_savefig L fig fmt bbox_inches s =
     (case map_of (figs s) fig of
        None \<Rightarrow> (Inl (Exception ''figure is not registered''), s)
      | Some f \<Rightarrow>
          (case savefig L f fmt bbox_inches (lib_state s) of
             (r, h) \<Rightarrow> (r, s\<lparr>lib_state := h\<rparr>)))"

section \<open>The plotting function\<close>

text \<open>
  \<open>generate_plot_image(mass_value)\<close>. An exception of \<open>savefig\<close> leaves the function
  at that call, with the state as it is there; the function has no handler and no
  \<open>finally\<close> clause.
\<close>

definition r_sphere :: float64 where
  "r_sphere = fadd (fsqrt (fadd (fmul SPHERE_X SPHERE_X) (fmul SPHERE_Y SPHERE_Y))) EPS"

definition z_sphere_clipped :: "float64 \<Rightarrow> float64" where
  "z_sphere_clipped mass_value =
     (let z_sphere = fdiv (fneg mass_value) r_sphere
      in fmaximum z_sphere CLIP_VALUE)"

definition generate_plot_image :: "lib \<Rightarrow> float64 \<Rightarrow> state \<Rightarrow> (exn + string) \<times> state" where
  "generate_plot_image L mass_value s =
     (let Z_clipped = field_Z_clipped mass_value (R_base s);
          (fig, s) = plt_figure (8, 6) s;
          (ax, s) = fig_add_subplot fig s;
          s = ax_plot_surface ax (X s) (Y s) Z_clipped ''plasma'' 0 True 2 2 s;
          s = ax_plot ax [SPHERE_X] [SPHERE_Y] [z_sphere_clipped mass_value]
                ''o'' 8 ''cyan'' ''Test Particle'' s;
          s = ax_set_title ax (''Spacetime Curvature (Mass = '' @ format_1f mass_value @ '')'') s;
          s = ax_set_xlabel ax ''Space (x)'' s;
          s = ax_set_ylabel ax ''Space (y)'' s;
          s = ax_set_zlabel ax ''Curvature (z)'' s;
          s = ax_set_zlim ax CLIP_VALUE (Fin 5) s;
          s = ax_legend ax s
      in case fig_savefig L fig ''png'' ''tight'' s of
           (Inl e, s) \<Rightarrow> (Inl e, s)
         | (Inr png, s) \<Rightarrow>
             (let image_base64 = b64encode png;
                  s = plt_close fig s
              in (Inr (''data:image/png;base64,'' @ image_base64), s)))"

text \<open>
  The figure \<open>generate_plot_image\<close> has drawn when it calls \<open>savefig\<close>, written out:
  a reference value for the properties below (\<open>generate_plot_image_eq\<close> relates it to
  the function).
\<close>

definition drawn_figure :: "float64 \<Rightarrow> state \<Rightarrow> figure" where
  "drawn_figure mass_value s =
     \<lparr>figsize = (8, 6),
      axes = [\<lparr>artists =
                 [Surface (X s) (Y s) (field_Z_clipped mass_value (R_base s)) ''plasma'' 0 True 2 2,
                  Line3D [SPHERE_X] [SPHERE_Y] [z_sphere_clipped mass_value]
                    ''o'' 8 ''cyan'' ''Test Particle''],
               title = ''Spacetime Curvature (Mass = '' @ format_1f mass_value @ '')'',
               xlabel = ''Space (x)'', ylabel = ''Space (y)'', zlabel = ''Curvature (z)'',
               zlim = Some (CLIP_VALUE, Fin 5), legend = True\<rparr>]\<rparr>"

definition next_fig_num :: "state \<Rightarrow> nat" where
  "next_fig_num s = Suc (foldr max (map fst (figs s)) 0)"

section \<open>The request handler\<close>

text \<open>
  Python's \<open>float(str)\<close>, on text whose characters have code points below 256. The
  whitespace it drops at both ends is tab, line feed, vertical tab, form feed, carriage
  return and space, and of the characters above 127 the next-line character (133) and
  the no-break space (160); the separators 28 to 31 are not dropped. Then an optional
  sign is followed by \<open>inf\<close>, \<open>infinity\<close> or \<open>nan\<close> in any letter case, or by a decimal
  number with an optional fraction and exponent, whose digit groups may be separated
  by single underscores. \<open>None\<close> stands for \<open>ValueError\<close>. The value of a decimal
  number is rounded to the nearest double.
\<close>

definition is_space :: "char \<Rightarrow> bool" where
  "is_space c = (let n = (of_char c :: nat) in (9 \<le> n \<and> n \<le> 13) \<or> n = 32 \<or> n = 133 \<or> n = 160)"

definition strip :: "string \<Rightarrow> string" where
  "strip s = rev (dropWhile is_space (rev (dropWhile is_space s)))"

definition is_digit :: "char \<Rightarrow> bool" where
  "is_digit c = (let n = (of_char c :: nat) in 48 \<le> n \<and> n \<le> 57)"

definition digit_val :: "char \<Rightarrow> nat" where
  "digit_val c = of_char c - 48"

definition lower :: "char \<Rightarrow> char" where
  "lower c = (let n = (of_char c :: nat) in if 65 \<le> n \<and> n \<le> 90 then char_of (n + 32) else c)"

text \<open>The rest of a digit group after its first digit: \<open>(["_"] digit)*\<close>.\<close>

fun digits_tail :: "string \<Rightarrow> nat list \<times> string" where
  "digits_tail [] = ([], [])"
| "digits_tail [c] = (if is_digit c then ([digit_val c], []) else ([], [c]))"
| "digits_tail (c # d # cs) =
     (if is_digit c then (case digits_tail (d # cs) of (ds, r) \<Rightarrow> (digit_val c # ds, r))
      else if c = CHR ''_'' \<and> is_digit d then (case digits_tail cs of (ds, r) \<Rightarrow> (digit_val d # ds, r))
      else ([], c # d # cs))"

definition digitpart :: "string \<Rightarrow> (nat list \<times> string) option" where
  "digitpart s =
     (case s of
        [] \<Rightarrow> None
      | c # cs \<Rightarrow> if is_digit c then (case digits_tail cs of (ds, r) \<Rightarrow> Some (digit_val c # ds, r))
                 else None)"

definition nat_of_digits :: "nat list \<Rightarrow> nat" where
  "nat_of_digits ds = foldl (\<lambda>a d. 10 * a + d) 0 ds"

text \<open>\<open>[digitpart] "." digitpart | digitpart ["."]\<close>: integer digits, fraction digits, rest.\<close>

definition number :: "string \<Rightarrow> (nat list \<times> nat list \<times> string) option" where
  "number s =
     (case digitpart s of
        Some (ip, r) \<Rightarrow>
          (case r of
             [] \<Rightarrow> Some (ip, [], [])
           | c # r' \<Rightarrow>
               if c = CHR ''.''
               then (case digitpart r' of Some (fp, r'') \<Rightarrow> Some (ip, fp, r'') | None \<Rightarrow> Some (ip, [], r'))
               else Some (ip, [], r))
      | None \<Rightarrow>
          (case s of
             [] \<Rightarrow> None
           | c # r' \<Rightarrow>
               if c = CHR ''.''
               then (case digitpart r' of Some (fp, r'') \<Rightarrow> Some ([], fp, r'') | None \<Rightarrow> None)
               else None))"

definition split_sign :: "string \<Rightarrow> bool \<times> string" where
  "split_sign s =
     (case s of
        [] \<Rightarrow> (False, [])
      | c # r \<Rightarrow> if c = CHR ''+'' then (False, r) else if c = CHR ''-'' then (True, r) else (False, s))"

text \<open>The exponent that ends the text, 0 when the text ends without one.\<close>

definition exponent :: "string \<Rightarrow> int option" where
  "exponent s =
     (case s of
        [] \<Rightarrow> Some 0
      | c # r \<Rightarrow>
          if c = CHR ''e'' \<or> c = CHR ''E''
          then (case split_sign r of
                  (neg, r') \<Rightarrow>
                    (case digitpart r' of
                       Some (ds, []) \<Rightarrow> Some (if neg then - int (nat_of_digits ds) else int (nat_of_digits ds))
                     | _ \<Rightarrow> None))
          else None)"

definition decimal_value :: "nat list \<Rightarrow> nat list \<Rightarrow> int \<Rightarrow> real" where
  "decimal_value ip fp e =
     (real (nat_of_digits ip) + real (nat_of_digits fp) / 10 ^ length fp) *
     (if 0 \<le> e then 10 ^ nat e else 1 / 10 ^ nat (- e))"

definition py_float :: "string \<Rightarrow> float64 option" where
  "py_float s =
     (case split_sign (strip s) of
        (neg, u) \<Rightarrow>
          (let v = (if map lower u = ''inf'' \<or> map lower u = ''infinity'' then Some PInf
                    else if map lower u = ''nan'' then Some NaN
                    else (case number u of
                            None \<Rightarrow> None
                          | Some (ip, fp, r) \<Rightarrow>
                              (case exponent r of
                                 None \<Rightarrow> None
                               | Some e \<Rightarrow> Some (round64 (decimal_value ip fp e)))))
           in case v of None \<Rightarrow> None | Some a \<Rightarrow> Some (if neg then fneg a else a)))"

text \<open>
  \<open>request.args.get(key, default=..., type=...)\<close> of werkzeug's \<open>MultiDict\<close>: the
  first value sent for the key, converted by \<open>type\<close>; the default when the key was not
  sent, and also when the conversion raises \<open>ValueError\<close>.
\<close>

definition args_get :: "(string \<times> string) list \<Rightarrow> string \<Rightarrow> 'a \<Rightarrow> (string \<Rightarrow> 'a option) \<Rightarrow> 'a" where
  "args_get args key dflt conv =
     (case map_of args key of
        None \<Rightarrow> dflt
      | Some rv \<Rightarrow> (case conv rv of None \<Rightarrow> dflt | Some v \<Rightarrow> v))"

datatype jvalue = JString string | JNumber float64

type_synonym response = "(string \<times> jvalue) list \<times> nat"

fun str_exn :: "exn \<Rightarrow> string" where
  "str_exn (Exception msg) = msg"

text \<open>
  \<open>simulation_endpoint()\<close>, given the query parameters of the request: the JSON
  object and the HTTP status. What the handler prints is not part of the model.
\<close>

definition simulation_endpoint :: "lib \<Rightarrow> (string \<times> string) list \<Rightarrow> state \<Rightarrow> response \<times> state" where
  "simulation_endpoint L args s =
     (let mass = args_get args ''mass'' INITIAL_MASS py_float
      in case generate_plot_image L mass s of
           (Inr image_data, s) \<Rightarrow>
             (([(''status'', JString ''success''), (''mass_used'', JNumber mass),
                (''image_data'', JString image_data)], 200), s)
         | (Inl e, s) \<Rightarrow>
             (([(''status'', JString ''error''), (''message'', JString (str_exn e))], 500), s))"

text \<open>The server answers requests one after the other, starting from a given state.\<close>

fun serve :: "lib \<Rightarrow> (string \<times> string) list list \<Rightarrow> state \<Rightarrow> response list \<times> state" where
  "serve L [] s = ([], s)"
| "serve L (args # rest) s =
     (case simulation_endpoint L args s of
        (resp, s') \<Rightarrow> (case serve L rest s' of (resps, s'') \<Rightarrow> (resp # resps, s'')))"

section \<open>Plotting libraries for concrete evaluations\<close>

text \<open>
  A library whose \<open>savefig\<close> writes the eight bytes of the PNG signature for every
  figure, one whose \<open>savefig\<close> raises for every figure, and one whose \<open>savefig\<close>
  numbers the images it writes: it appends the count of earlier calls, kept in the
  hidden state, to the signature.
\<close>

definition png_signature :: "byte list" where
  "png_signature = [137, 80, 78, 71, 13, 10, 26, 10]"

definition lib_writing :: lib where
  "lib_writing = \<lparr>savefig = (\<lambda>f fmt bbox_inches h. (Inr png_signature, h))\<rparr>"

definition lib_raising :: lib where
  "lib_raising = \<lparr>savefig = (\<lambda>f fmt bbox_inches h. (Inl (Exception ''out of memory''), h))\<rparr>"

definition lib_numbering :: lib where
  "lib_numbering =
     \<lparr>savefig = (\<lambda>f fmt bbox_inches h. (Inr (png_signature @ [of_nat h]), Suc h))\<rparr>"

text \<open>
  A library renders by the figure when the bytes or the exception of \<open>savefig\<close> depend
  on the figure and the two options only, not on the hidden state.
\<close>

definition renders_by_figure :: "lib \<Rightarrow> bool" where
  "renders_by_figure L =
     (\<forall>f fmt bbox_inches h h'.
        fst (savefig L f fmt bbox_inches h) = fst (savefig L f fmt bbox_inches h'))"

section \<open>Rounding to the nearest double\<close>

lemma rhe_err: "0 \<le> r \<Longrightarrow> \<bar>real (round_half_even r) - r\<bar> \<le> 1 / 2"
proof -
  assume r: "0 \<le> r"
  define f where "f = \<lfloor>r\<rfloor>"
  have f: "0 \<le> f" "of_int f \<le> r" "r < of_int f + 1"
    using r by (simp_all add: f_def)
  have "real (nat f) = of_int f" "real (nat (f + 1)) = of_int f + 1"
    using f(1) by simp_all
  then show ?thesis
    using f(2,3) unfolding round_half_even_def Let_def f_def [symmetric]
    by (auto simp: abs_le_iff) 
qed

lemma rhe_nat: "round_half_even (real n) = n"
  by (simp add: round_half_even_def)

lemma rhe_zero: "0 \<le> r \<Longrightarrow> r \<le> 1 / 2 \<Longrightarrow> round_half_even r = 0"
proof -
  assume r: "0 \<le> r" "r \<le> 1 / 2"
  then have "\<lfloor>r\<rfloor> = 0" by (simp add: floor_eq_iff)
  then show ?thesis
    using r by (simp add: round_half_even_def)
qed

lemma rhe_pos: "1 / 2 < r \<Longrightarrow> 1 \<le> round_half_even r"
proof -
  assume r: "1 / 2 < r"
  define f where "f = \<lfloor>r\<rfloor>"
  have f: "0 \<le> f" "of_int f \<le> r" "r < of_int f + 1"
    using r by (simp_all add: f_def)
  show ?thesis
  proof (cases "f = 0")
    case True
    with r show ?thesis
      unfolding round_half_even_def Let_def f_def [symmetric] by simp
  next
    case False
    with f(1) have "1 \<le> f" by simp
    then show ?thesis
      unfolding round_half_even_def Let_def f_def [symmetric] by auto
  qed
qed

lemma ulp_pos: "0 < ulp x"
  by (simp add: ulp_def)

lemma expo_ge: "- 1022 \<le> expo x"
  by (simp add: expo_def)

lemma ulp_eq: "ulp x = 2 powr (of_int (expo x)) / 2 ^ 52"
  by (simp add: ulp_def powr_diff)

lemma ulp_min: "1 / 2 ^ 1074 \<le> ulp x"
proof -
  have "(- 1074 :: real) \<le> of_int (expo x) - 52"
    using expo_ge [of x] by linarith
  then have "2 powr (- 1074) \<le> ulp x"
    unfolding ulp_def by (intro powr_mono) simp_all
  then show ?thesis
    by (simp add: powr_neg_numeral)
qed

lemma ulp_cases:
  assumes "x \<noteq> 0"
  shows "2 ^ 52 * ulp x \<le> \<bar>x\<bar> \<or> ulp x = 1 / 2 ^ 1074"
proof (cases "- 1022 \<le> \<lfloor>log 2 \<bar>x\<bar>\<rfloor>")
  case True
  then have e: "expo x = \<lfloor>log 2 \<bar>x\<bar>\<rfloor>" by (simp add: expo_def)
  have "2 powr (of_int \<lfloor>log 2 \<bar>x\<bar>\<rfloor>) \<le> \<bar>x\<bar>"
    using floor_log_eq_powr_iff [of "\<bar>x\<bar>" 2 "\<lfloor>log 2 \<bar>x\<bar>\<rfloor>"] assms by simp
  then show ?thesis
    by (simp add: ulp_eq e)
next
  case False
  then have "expo x = - 1022" by (simp add: expo_def)
  then have "ulp x = 2 powr (- 1074)" by (simp add: ulp_def)
  then show ?thesis by (simp add: powr_neg_numeral)
qed

lemma ulp_above:
  assumes "x \<noteq> 0"
  shows "\<bar>x\<bar> < 2 ^ 53 * ulp x"
proof -
  have "\<bar>x\<bar> < 2 powr (of_int (\<lfloor>log 2 \<bar>x\<bar>\<rfloor> + 1))"
    using floor_log_eq_powr_iff [of "\<bar>x\<bar>" 2 "\<lfloor>log 2 \<bar>x\<bar>\<rfloor>"] assms by simp
  also have "\<dots> \<le> 2 powr (of_int (expo x + 1))"
    by (intro powr_mono) (simp_all add: expo_def)
  also have "\<dots> = 2 ^ 53 * ulp x"
    by (simp add: ulp_eq powr_add)
  finally show ?thesis .
qed


lemma round64_zero: "round64 0 = Fin 0"
  by (simp add: round64_def)

lemma round64_not_NaN: "round64 x \<noteq> NaN"
  by (simp add: round64_def Let_def)

text \<open>The quotient by the spacing and its rounding, for a number other than 0.\<close>

lemma round64_cases:
  assumes "x \<noteq> 0"
  obtains (over) q where "q = round_half_even (\<bar>x\<bar> / ulp x)" "huge \<le> real q * ulp x"
      "round64 x = (if x < 0 then NInf else PInf)"
  | (fin) q where "q = round_half_even (\<bar>x\<bar> / ulp x)" "real q * ulp x < huge"
      "round64 x = Fin (sgn x * (real q * ulp x))"
proof (cases "huge \<le> real (round_half_even (\<bar>x\<bar> / ulp x)) * ulp x")
  case True
  show ?thesis
    by (rule over [OF refl True]) (use assms True in \<open>simp add: round64_def Let_def\<close>)
next
  case False
  then have "real (round_half_even (\<bar>x\<bar> / ulp x)) * ulp x < huge" by simp
  then show ?thesis
    by (rule fin [OF refl]) (use assms False in \<open>simp add: round64_def Let_def\<close>)
qed

lemma quotient_err:
  "\<bar>real (round_half_even (\<bar>x\<bar> / ulp x)) * ulp x - \<bar>x\<bar>\<bar> \<le> ulp x / 2"
proof -
  define u where "u = ulp x"
  define q where "q = real (round_half_even (\<bar>x\<bar> / u))"
  have u: "0 < u" by (simp add: u_def ulp_pos)
  have "\<bar>q - \<bar>x\<bar> / u\<bar> \<le> 1 / 2"
    unfolding q_def using u by (intro rhe_err) simp
  then have "\<bar>q - \<bar>x\<bar> / u\<bar> * u \<le> 1 / 2 * u"
    using u by (intro mult_right_mono) simp_all
  moreover have "\<bar>q - \<bar>x\<bar> / u\<bar> * u = \<bar>q * u - \<bar>x\<bar>\<bar>"
  proof -
    have "\<bar>q - \<bar>x\<bar> / u\<bar> * u = \<bar>(q - \<bar>x\<bar> / u) * u\<bar>"
      using u by (simp add: abs_mult)
    also have "(q - \<bar>x\<bar> / u) * u = q * u - \<bar>x\<bar>"
      using u by (simp add: left_diff_distrib)
    finally show ?thesis .
  qed
  ultimately show ?thesis
    by (simp add: q_def u_def)
qed

lemma round64_error:
  assumes "round64 x = Fin y"
  shows "\<bar>y - x\<bar> \<le> ulp x / 2"
proof (cases "x = 0")
  case True
  with assms show ?thesis using ulp_pos [of x] by (simp add: round64_zero)
next
  case False
  then show ?thesis
  proof (cases rule: round64_cases)
    case (over q)
    with assms show ?thesis by (simp split: if_splits)
  next
    case (fin q)
    with assms have y: "y = sgn x * (real q * ulp x)" by simp
    have x: "x = sgn x * \<bar>x\<bar>" by (simp add: sgn_mult_abs)
    have "y - x = sgn x * (real q * ulp x - \<bar>x\<bar>)"
      by (subst x, subst y) (simp add: right_diff_distrib)
    then have "\<bar>y - x\<bar> = \<bar>real q * ulp x - \<bar>x\<bar>\<bar>"
      using False by (simp add: abs_mult abs_sgn_eq)
    then show ?thesis
      using quotient_err [of x] by (simp add: fin(1))
  qed
qed

lemma half_ulp_le:
  assumes "x \<noteq> 0"
  shows "ulp x / 2 \<le> \<bar>x\<bar> / 2 ^ 53 + 1 / 2 ^ 1075"
  using ulp_cases [OF assms]
proof
  assume "2 ^ 52 * ulp x \<le> \<bar>x\<bar>"
  then have "ulp x / 2 \<le> \<bar>x\<bar> / 2 ^ 53" by simp
  then show ?thesis by simp
next
  assume "ulp x = 1 / 2 ^ 1074"
  then have "ulp x / 2 = 1 / 2 ^ 1075" by simp
  then show ?thesis by simp
qed

lemma round64_sign:
  assumes "round64 x = Fin y"
  shows "(0 \<le> x \<longrightarrow> 0 \<le> y) \<and> (x \<le> 0 \<longrightarrow> y \<le> 0)"
proof (cases "x = 0")
  case True
  with assms show ?thesis by (simp add: round64_zero)
next
  case False
  then show ?thesis
  proof (cases rule: round64_cases)
    case (over q)
    with assms show ?thesis by (simp split: if_splits)
  next
    case (fin q)
    with assms have y: "y = sgn x * (real q * ulp x)" by simp
    have "0 \<le> real q * ulp x" using ulp_pos [of x] by simp
    then show ?thesis
      unfolding y by (auto simp: sgn_real_def mult_nonneg_nonneg)
  qed
qed

lemma round64_inf:
  "round64 x = PInf \<Longrightarrow> 0 < x"
  "round64 x = NInf \<Longrightarrow> x < 0"
  by (auto simp: round64_def Let_def split: if_splits)


lemma round64_tiny:
  assumes "\<bar>x\<bar> \<le> 1 / 2 ^ 1075"
  shows "round64 x = Fin 0"
proof (cases "x = 0")
  case True
  then show ?thesis by (simp add: round64_zero)
next
  case False
  have "\<not> 2 ^ 52 * ulp x \<le> \<bar>x\<bar>"
  proof
    assume "2 ^ 52 * ulp x \<le> \<bar>x\<bar>"
    moreover have "2 ^ 52 * (1 / 2 ^ 1074) \<le> 2 ^ 52 * ulp x"
      using ulp_min [of x] by (intro mult_left_mono) simp_all
    ultimately have "2 ^ 52 * (1 / 2 ^ 1074) \<le> (1 / 2 ^ 1075 :: real)"
      using assms by linarith
    then show False by simp
  qed
  with ulp_cases [OF False] have u: "ulp x = 1 / 2 ^ 1074" by blast
  have "\<bar>x\<bar> / ulp x = \<bar>x\<bar> * 2 ^ 1074" by (simp add: u)
  also have "\<dots> \<le> 1 / 2 ^ 1075 * 2 ^ 1074"
    using assms by (intro mult_right_mono) simp_all
  also have "\<dots> = 1 / 2" by simp
  finally have "round_half_even (\<bar>x\<bar> / ulp x) = 0"
    using ulp_pos [of x] by (intro rhe_zero) simp_all
  then show ?thesis
    using False by (simp add: round64_def huge_def)
qed

lemma round64_nonzero:
  assumes "1 / 2 ^ 1075 < \<bar>x\<bar>"
  shows "round64 x \<noteq> Fin 0"
proof -
  have x: "x \<noteq> 0" using assms by auto
  have "1 / 2 < \<bar>x\<bar> / ulp x"
    using ulp_cases [OF x]
  proof
    assume a: "2 ^ 52 * ulp x \<le> \<bar>x\<bar>"
    have "2 ^ 52 \<le> \<bar>x\<bar> / ulp x"
      using a ulp_pos [of x] by (simp add: pos_le_divide_eq)
    moreover have "(1 / 2 :: real) < 2 ^ 52" by simp
    ultimately show ?thesis by linarith
  next
    assume u: "ulp x = 1 / 2 ^ 1074"
    have "1 / 2 ^ 1075 * 2 ^ 1074 < \<bar>x\<bar> * 2 ^ 1074"
      using assms by (intro mult_strict_right_mono) simp_all
    then show ?thesis by (simp add: u)
  qed
  then have "1 \<le> round_half_even (\<bar>x\<bar> / ulp x)" by (rule rhe_pos)
  then have pos: "0 < real (round_half_even (\<bar>x\<bar> / ulp x)) * ulp x"
    using ulp_pos [of x] by simp
  from x show ?thesis
  proof (cases rule: round64_cases)
    case (over q)
    then show ?thesis by simp
  next
    case (fin q)
    have "0 < real q * ulp x"
      using pos by (simp only: fin(1))
    then have nz: "real q * ulp x \<noteq> 0" by linarith
    have "sgn x \<noteq> 0"
      using x by (simp add: sgn_zero_iff)
    then have "sgn x * (real q * ulp x) \<noteq> 0"
      using nz by (rule no_zero_divisors)
    then show ?thesis by (simp only: fin(3) float64.inject) simp
  qed
qed

lemma round64_fin:
  assumes "\<bar>x\<bar> \<le> 2 ^ 1022"
  shows "\<exists>y. round64 x = Fin y"
proof (cases "x = 0")
  case True
  then show ?thesis by (simp add: round64_zero)
next
  case False
  define q where "q = round_half_even (\<bar>x\<bar> / ulp x)"
  have "real q * ulp x \<le> \<bar>x\<bar> + ulp x / 2"
    unfolding q_def using quotient_err [of x] by linarith
  also have "\<dots> \<le> \<bar>x\<bar> + (\<bar>x\<bar> / 2 ^ 53 + 1 / 2 ^ 1075)"
    using half_ulp_le [OF False] by simp
  also have "\<dots> \<le> \<bar>x\<bar> + (\<bar>x\<bar> + 1)"
  proof -
    have "\<bar>x\<bar> / 2 ^ 53 \<le> \<bar>x\<bar> / 1" by (intro divide_left_mono) simp_all
    moreover have "(1 / 2 ^ 1075 :: real) \<le> 1" by simp
    ultimately show ?thesis by simp
  qed
  also have "\<dots> < huge"
    using assms by (simp add: huge_def)
  finally have "\<not> huge \<le> real q * ulp x" by simp
  then show ?thesis
    using False by (simp add: round64_def Let_def q_def)
qed

lemma round64_minus: "round64 (- x) = fneg (round64 x)"
proof -
  have "ulp (- x) = ulp x" by (simp add: ulp_def expo_def)
  then show ?thesis
    by (simp add: round64_def Let_def sgn_real_def)
qed

lemma round64_of_nat:
  assumes "0 < n" "n < 2 ^ 53"
  shows "round64 (real n) = Fin (real n)"
proof -
  define l where "l = \<lfloor>log 2 (real n)\<rfloor>"
  have n: "0 < real n" "1 \<le> real n" using assms(1) by simp_all
  have l: "2 powr (of_int l) \<le> real n" "real n < 2 powr (of_int (l + 1))"
    using floor_log_eq_powr_iff [of "real n" 2 l] n(1) by (simp_all add: l_def)
  have l0: "0 \<le> l"
    using n(2) by (simp add: l_def)
  have "real n < 2 ^ 53"
    using assms(2) by (simp flip: of_nat_less_iff)
  also have "\<dots> = 2 powr 53" by simp
  finally have "2 powr (of_int l) < (2::real) powr 53"
    using l(1) by linarith
  then have "real_of_int l < 53" by (rule powr_less_cancel) simp
  then have l52: "l \<le> 52" by linarith
  define k where "k = nat (52 - l)"
  have e: "expo (real n) = l"
    using l0 by (simp add: expo_def l_def)
  have "of_int l - 52 = (of_int (l - 52) :: real)" by simp
  then have "ulp (real n) = 2 powr (of_int (l - 52))"
    by (simp only: ulp_def e)
  also have "\<dots> = 1 / 2 ^ k"
    using l52 powr_int [of 2 "l - 52"] by (simp add: k_def)
  finally have u: "ulp (real n) = 1 / 2 ^ k" .
  have "real n / ulp (real n) = real (n * 2 ^ k)"
    by (simp add: u)
  then have q: "round_half_even (real n / ulp (real n)) = n * 2 ^ k"
    by (simp only: rhe_nat)
  have v: "real (n * 2 ^ k) * ulp (real n) = real n"
    by (simp add: u)
  have "real n < huge"
  proof -
    have "real n < 2 ^ 53" using assms(2) by (simp flip: of_nat_less_iff)
    also have "\<dots> < huge" by (simp add: huge_def)
    finally show ?thesis .
  qed
  then show ?thesis
    using n(1) by (simp add: round64_def Let_def q v del: of_nat_mult of_nat_power)
qed

lemma round64_one: "round64 1 = Fin 1"
  using round64_of_nat [of 1] by simp

lemma round64_ten: "round64 10 = Fin 10"
  using round64_of_nat [of 10] by simp

lemma round64_near:
  assumes "round64 x = Fin y"
  shows "\<bar>y - x\<bar> \<le> \<bar>x\<bar> / 2 ^ 53 + 1 / 2 ^ 1075"
proof (cases "x = 0")
  case True
  with assms show ?thesis by (simp add: round64_zero)
next
  case False
  from round64_error [OF assms] half_ulp_le [OF False] show ?thesis by linarith
qed

lemma fdiv_fin: "b \<noteq> 0 \<Longrightarrow> fdiv (Fin a) (Fin b) = round64 (a / b)"
  by simp

lemma round64_bracket:
  assumes "lo < x" "x < hi" "\<bar>x\<bar> \<le> 1024"
  obtains q where "round64 x = Fin q" "lo - 1 / 2 ^ 40 < q" "q < hi + 1 / 2 ^ 40"
proof -
  have "\<bar>x\<bar> \<le> 2 ^ 1022"
    using assms(3) by (rule order_trans) simp
  then obtain q where q: "round64 x = Fin q"
    using round64_fin by blast
  have "\<bar>q - x\<bar> \<le> \<bar>x\<bar> / 2 ^ 53 + 1 / 2 ^ 1075"
    using q by (rule round64_near)
  moreover have "\<bar>x\<bar> / 2 ^ 53 \<le> 1024 / 2 ^ 53"
    using assms(3) by (intro divide_right_mono) simp_all
  moreover have "(1024 / 2 ^ 53 + 1 / 2 ^ 1075 :: real) < 1 / 2 ^ 40"
    by simp
  ultimately have "\<bar>q - x\<bar> < 1 / 2 ^ 40"
    by linarith
  then have "lo - 1 / 2 ^ 40 < q" "q < hi + 1 / 2 ^ 40"
    using assms(1,2) by linarith+
  with q show ?thesis
    by (rule that)
qed

lemma quotient_between:
  fixes a b c d :: real
  shows "0 < c \<Longrightarrow> a * c < b \<Longrightarrow> a < b / c"
    and "0 < c \<Longrightarrow> b < d * c \<Longrightarrow> b / c < d"
  by (simp_all add: pos_less_divide_eq pos_divide_less_eq)

section \<open>Properties of the field evaluation\<close>

lemma length_linspace: "length (linspace a b n) = n"
  by (simp add: linspace_def Let_def)

lemma shape_meshgrid:
  "shape (fst (meshgrid xs ys)) (length ys) (length xs)"
  "shape (snd (meshgrid xs ys)) (length ys) (length xs)"
  by (simp_all add: meshgrid_def shape_def list_all_iff)

lemma shape_np_map: "shape A m n \<Longrightarrow> shape (np_map f A) m n"
  by (simp add: shape_def np_map_def list_all_iff)

lemma shape_np_map2: "shape A m n \<Longrightarrow> shape B m n \<Longrightarrow> shape (np_map2 f A B) m n"
  by (auto simp: shape_def np_map2_def list_all_iff in_set_zip)

lemma nth_np_map: "i < length A \<Longrightarrow> j < length (A ! i) \<Longrightarrow> np_map f A ! i ! j = f (A ! i ! j)"
  by (simp add: np_map_def)

lemma shape_nth: "shape A m n \<Longrightarrow> i < m \<Longrightarrow> length (A ! i) = n"
  by (auto simp: shape_def list_all_iff)

lemma shape_length: "shape A m n \<Longrightarrow> length A = m"
  by (simp add: shape_def)

lemma length_axis: "length axis_x = 100" "length axis_y = 100"
  by (simp_all add: axis_x_def axis_y_def length_linspace GRID_SIZE_def)

lemma module_init_fields:
  "X module_init = fst (meshgrid axis_x axis_y)"
  "Y module_init = snd (meshgrid axis_x axis_y)"
  "R_base module_init = radial_field (X module_init) (Y module_init)"
  "figs module_init = []"
  "lib_state module_init = 0"
  by (simp_all add: module_init_def split_def Let_def)

lemma shape_X: "shape (X module_init) 100 100"
  using shape_meshgrid(1) [of axis_x axis_y]
  by (simp add: module_init_fields length_axis)

lemma shape_Y: "shape (Y module_init) 100 100"
  using shape_meshgrid(2) [of axis_x axis_y]
  by (simp add: module_init_fields length_axis)

lemma shape_R_base: "shape (R_base module_init) 100 100"
proof -
  have "R_base module_init = radial_field (X module_init) (Y module_init)"
    by (rule module_init_fields)
  then show ?thesis
    by (simp add: radial_field_def shape_np_map2 shape_X shape_Y)
qed

lemma nth_field_Z_clipped:
  assumes "shape R m n" "i < m" "j < n"
  shows "field_Z_clipped mass_value R ! i ! j = fmaximum (fdiv (fneg mass_value) (R ! i ! j)) CLIP_VALUE"
proof -
  have l: "length R = m" "length (R ! i) = n"
    using assms by (simp_all add: shape_length shape_nth)
  then show ?thesis
    using assms by (simp add: field_Z_clipped_def field_Z_def np_map_def)
qed

section \<open>Range of the curvature field\<close>

text \<open>Every base radial distance is a finite, positive number.\<close>

lemma linspace_fin:
  assumes "v \<in> set (linspace (Fin a) (Fin b) n)" "\<bar>b - a\<bar> \<le> 2 ^ 1022"
  shows "\<exists>c. v = Fin c"
proof (cases "n < 2")
  case True
  then have "n = 0 \<or> n = 1" by arith
  with assms show ?thesis by (auto simp: linspace_def)
next
  case False
  then have n: "n \<noteq> 0" "n \<noteq> 1" "real (n - 1) \<noteq> 0" "1 \<le> real (n - 1)" by simp_all
  have "\<bar>(b - a) / real (n - 1)\<bar> = \<bar>b - a\<bar> / real (n - 1)"
    by simp
  also have "\<dots> \<le> \<bar>b - a\<bar> / 1"
    using n(4) by (intro divide_left_mono) simp_all
  finally have "\<bar>(b - a) / real (n - 1)\<bar> \<le> 2 ^ 1022"
    using assms(2) by simp
  then obtain st where "round64 ((b - a) / real (n - 1)) = Fin st"
    using round64_fin by blast
  then have st: "fdiv (fsub (Fin b) (Fin a)) (Fin (real (n - 1))) = Fin st"
    using n(3) by (simp add: fsub_def)
  from assms(1) n(1,2) show ?thesis
    unfolding linspace_def Let_def st by auto
qed

lemma axis_fin:
  "j < 100 \<Longrightarrow> \<exists>c. axis_x ! j = Fin c"
  "i < 100 \<Longrightarrow> \<exists>c. axis_y ! i = Fin c"
proof -
  have x: "axis_x = linspace (Fin (- 20)) (Fin 20) 100" and y: "axis_y = linspace (Fin (- 20)) (Fin 20) 100"
    by (simp_all add: axis_x_def axis_y_def GRID_MAX_def GRID_SIZE_def)
  show "j < 100 \<Longrightarrow> \<exists>c. axis_x ! j = Fin c"
    using linspace_fin [of "axis_x ! j" "- 20" 20 100] nth_mem [of j axis_x]
    by (simp add: length_axis x [symmetric])
  show "i < 100 \<Longrightarrow> \<exists>c. axis_y ! i = Fin c"
    using linspace_fin [of "axis_y ! i" "- 20" 20 100] nth_mem [of i axis_y]
    by (simp add: length_axis y [symmetric])
qed

lemma radial_pos: "\<exists>r. radial (Fin a) (Fin b) = Fin r \<and> 0 < r"
proof -
  have "\<not> a * a + b * b < 0" by (simp add: not_less)
  then have "radial (Fin a) (Fin b) = Fin (sqrt (a * a + b * b) + 1 / 1000000)"
    by (simp add: radial_def EPS_def)
  moreover have "0 < sqrt (a * a + b * b) + 1 / 1000000"
    by (rule add_nonneg_pos) simp_all
  ultimately show ?thesis by blast
qed

lemma nth_R_base:
  assumes "i < 100" "j < 100"
  shows "R_base module_init ! i ! j = radial (axis_x ! j) (axis_y ! i)"
  using assms
  by (simp add: module_init_fields radial_field_def np_map2_def meshgrid_def length_axis)

lemma R_base_pos:
  assumes "i < 100" "j < 100"
  shows "\<exists>r. R_base module_init ! i ! j = Fin r \<and> 0 < r"
proof -
  obtain a b where "axis_x ! j = Fin a" "axis_y ! i = Fin b"
    using axis_fin assms by blast
  then show ?thesis
    using radial_pos [of a b] by (simp add: nth_R_base assms)
qed

text \<open>The base radial distance at the first grid point, the corner \<open>(-20, -20)\<close>.\<close>

lemma axis_first: "axis_x ! 0 = Fin (- 20)" "axis_y ! 0 = Fin (- 20)"
proof -
  have "\<bar>40 / 99 :: real\<bar> \<le> 2 ^ 1022" by simp
  then obtain st where st: "round64 (40 / 99) = Fin st"
    using round64_fin by blast
  have "linspace (Fin (- 20)) (Fin 20) 100 ! 0 = Fin (- 20)"
    unfolding linspace_def Let_def
    by (simp add: fsub_def nth_append st del: upt_rec_numeral)
  then show "axis_x ! 0 = Fin (- 20)" "axis_y ! 0 = Fin (- 20)"
    by (simp_all add: axis_x_def axis_y_def GRID_MAX_def GRID_SIZE_def)
qed

lemma R_base_corner: "R_base module_init ! 0 ! 0 = Fin (sqrt 800 + 1 / 1000000)"
proof -
  have "R_base module_init ! 0 ! 0 = radial (Fin (- 20)) (Fin (- 20))"
    by (simp add: nth_R_base axis_first)
  also have "\<dots> = Fin (sqrt 800 + 1 / 1000000)"
    by (simp add: radial_def EPS_def)
  finally show ?thesis .
qed

lemma sqrt_800: "28 < sqrt 800" "sqrt 800 < 29"
proof -
  show "28 < sqrt 800" by (rule real_less_rsqrt) simp
  show "sqrt 800 < 29" by (rule real_less_lsqrt) simp_all
qed

text \<open>The clipped quotient, case by case.\<close>

lemma fmaximum_clip:
  "fmaximum (Fin q) (Fin (- 15)) = Fin (max q (- 15))"
  "fmaximum PInf (Fin (- 15)) = PInf"
  "fmaximum NInf (Fin (- 15)) = Fin (- 15)"
  by (simp_all add: max_def)

lemma fdiv_neg_fin:
  assumes "0 < r"
  shows "fdiv (fneg (Fin m)) (Fin r) = round64 (- m / r)"
  using assms by simp

lemma clip_cases:
  assumes "0 < r"
  shows "fmaximum (fdiv (fneg mass) (Fin r)) (Fin (- 15)) =
     (case mass of
        Fin m \<Rightarrow> (case round64 (- m / r) of
                    Fin q \<Rightarrow> Fin (max q (- 15)) | PInf \<Rightarrow> PInf | NInf \<Rightarrow> Fin (- 15) | NaN \<Rightarrow> NaN)
      | PInf \<Rightarrow> Fin (- 15) | NInf \<Rightarrow> PInf | NaN \<Rightarrow> NaN)"
proof (cases mass)
  case (Fin m)
  define v where "v = round64 (- m / r)"
  have "fmaximum (fdiv (fneg mass) (Fin r)) (Fin (- 15)) = fmaximum v (Fin (- 15))"
    unfolding Fin v_def by (simp only: fdiv_neg_fin [OF assms])
  also have "\<dots> = (case v of
                    Fin q \<Rightarrow> Fin (max q (- 15)) | PInf \<Rightarrow> PInf | NInf \<Rightarrow> Fin (- 15) | NaN \<Rightarrow> NaN)"
    by (cases v) (simp_all add: fmaximum_clip)
  finally show ?thesis
    unfolding Fin v_def by simp
next
  case PInf
  then show ?thesis using assms by (simp add: inf_of_sign_def)
next
  case NInf
  then show ?thesis using assms by (simp add: inf_of_sign_def)
next
  case NaN
  then show ?thesis by simp
qed



text \<open>
  Claim C1. For every mass, whether finite, infinite or NaN, the clipped curvature
  field computed from the precomputed base radial field has 100 rows of 100 elements.
  Every base radial distance is a positive real \<open>r\<close>, and for a finite mass \<open>m\<close> the
  element at row \<open>i\<close>, column \<open>j\<close> is the larger of \<open>q\<close> and \<open>-15\<close>, where \<open>q\<close> is the
  quotient \<open>-m / r\<close> as the division returns it: the double nearest to it, which
  differs from it by at most \<open>|m / r| / 2 ^ 53 + 2 ^ (- 1075)\<close>. A quotient that
  overflows to negative infinity is clipped to \<open>-15\<close>, one that overflows to positive
  infinity stays. For the mass \<open>+inf\<close> the element is \<open>-15\<close>, for \<open>-inf\<close> it is \<open>+inf\<close>,
  for NaN it is NaN.
\<close>

theorem curvature_field_elementwise:
  "shape (field_Z_clipped mass_value (R_base module_init)) 100 100 \<and>
   (\<forall>i < 100. \<forall>j < 100. \<exists>r > 0.
      R_base module_init ! i ! j = Fin r \<and>
      field_Z_clipped mass_value (R_base module_init) ! i ! j =
        (case mass_value of
           Fin m \<Rightarrow> (case round64 (- m / r) of
                       Fin q \<Rightarrow> Fin (max q (- 15)) | PInf \<Rightarrow> PInf | NInf \<Rightarrow> Fin (- 15)
                     | NaN \<Rightarrow> NaN)
         | PInf \<Rightarrow> Fin (- 15) | NInf \<Rightarrow> PInf | NaN \<Rightarrow> NaN) \<and>
      (\<forall>m q. mass_value = Fin m \<longrightarrow> round64 (- m / r) = Fin q \<longrightarrow>
         \<bar>q - (- m / r)\<bar> \<le> \<bar>m / r\<bar> / 2 ^ 53 + 1 / 2 ^ 1075))"
proof -
  have sh: "shape (field_Z_clipped mass_value (R_base module_init)) 100 100"
    unfolding field_Z_clipped_def field_Z_def
    by (intro shape_np_map shape_R_base)
  have el: "\<exists>r > 0.
      R_base module_init ! i ! j = Fin r \<and>
      field_Z_clipped mass_value (R_base module_init) ! i ! j =
        (case mass_value of
           Fin m \<Rightarrow> (case round64 (- m / r) of
                       Fin q \<Rightarrow> Fin (max q (- 15)) | PInf \<Rightarrow> PInf | NInf \<Rightarrow> Fin (- 15)
                     | NaN \<Rightarrow> NaN)
         | PInf \<Rightarrow> Fin (- 15) | NInf \<Rightarrow> PInf | NaN \<Rightarrow> NaN) \<and>
      (\<forall>m q. mass_value = Fin m \<longrightarrow> round64 (- m / r) = Fin q \<longrightarrow>
         \<bar>q - (- m / r)\<bar> \<le> \<bar>m / r\<bar> / 2 ^ 53 + 1 / 2 ^ 1075)"
    if ij: "i < 100" "j < 100" for i j
  proof -
    obtain r where r: "R_base module_init ! i ! j = Fin r" "0 < r"
      using R_base_pos ij by blast
    have "field_Z_clipped mass_value (R_base module_init) ! i ! j =
          fmaximum (fdiv (fneg mass_value) (Fin r)) (Fin (- 15))"
      using nth_field_Z_clipped [OF shape_R_base ij] r by (simp add: CLIP_VALUE_def)
    then have elt: "field_Z_clipped mass_value (R_base module_init) ! i ! j =
        (case mass_value of
           Fin m \<Rightarrow> (case round64 (- m / r) of
                       Fin q \<Rightarrow> Fin (max q (- 15)) | PInf \<Rightarrow> PInf | NInf \<Rightarrow> Fin (- 15)
                     | NaN \<Rightarrow> NaN)
         | PInf \<Rightarrow> Fin (- 15) | NInf \<Rightarrow> PInf | NaN \<Rightarrow> NaN)"
      by (simp only: clip_cases [OF r(2)])
    have near: "\<forall>m q. mass_value = Fin m \<longrightarrow> round64 (- m / r) = Fin q \<longrightarrow>
         \<bar>q - (- m / r)\<bar> \<le> \<bar>m / r\<bar> / 2 ^ 53 + 1 / 2 ^ 1075"
    proof (intro allI impI)
      fix m q
      assume "round64 (- m / r) = Fin q"
      from round64_near [OF this]
      show "\<bar>q - (- m / r)\<bar> \<le> \<bar>m / r\<bar> / 2 ^ 53 + 1 / 2 ^ 1075"
        by simp
    qed
    show ?thesis
      by (intro exI [of _ r] conjI r(2) r(1) elt near)
  qed
  show ?thesis
    by (intro conjI sh allI impI el)
qed

theorem curvature_field_elementwise_witness:
  "(0::nat) < 100 \<and>
   shape (field_Z_clipped (Fin 1000) (R_base module_init)) 100 100 \<and>
   field_Z_clipped (Fin 1000) (R_base module_init) ! 0 ! 0 = Fin (- 15) \<and>
   flt (Fin (- 36 / 100)) (field_Z_clipped (Fin 10) (R_base module_init) ! 0 ! 0) \<and>
   flt (field_Z_clipped (Fin 10) (R_base module_init) ! 0 ! 0) (Fin (- 34 / 100)) \<and>
   field_Z_clipped (Fin 0) (R_base module_init) ! 0 ! 0 = Fin 0 \<and>
   field_Z_clipped PInf (R_base module_init) ! 0 ! 0 = Fin (- 15) \<and>
   field_Z_clipped NInf (R_base module_init) ! 0 ! 0 = PInf \<and>
   field_Z_clipped NaN (R_base module_init) ! 0 ! 0 = NaN"
proof -
  define r0 :: real where "r0 = sqrt 800 + 1 / 1000000"
  have r0: "28 < r0" "r0 < 29 + 1 / 1000000" "0 < r0"
    using sqrt_800 by (simp_all add: r0_def)
  have corner: "R_base module_init ! 0 ! 0 = Fin r0"
    by (simp only: R_base_corner r0_def)
  have elt: "field_Z_clipped mass (R_base module_init) ! 0 ! 0 =
        (case mass of
           Fin m \<Rightarrow> (case round64 (- m / r0) of
                       Fin q \<Rightarrow> Fin (max q (- 15)) | PInf \<Rightarrow> PInf | NInf \<Rightarrow> Fin (- 15)
                     | NaN \<Rightarrow> NaN)
         | PInf \<Rightarrow> Fin (- 15) | NInf \<Rightarrow> PInf | NaN \<Rightarrow> NaN)" for mass
  proof -
    have "\<exists>r > 0. R_base module_init ! 0 ! 0 = Fin r \<and>
      field_Z_clipped mass (R_base module_init) ! 0 ! 0 =
        (case mass of
           Fin m \<Rightarrow> (case round64 (- m / r) of
                       Fin q \<Rightarrow> Fin (max q (- 15)) | PInf \<Rightarrow> PInf | NInf \<Rightarrow> Fin (- 15)
                     | NaN \<Rightarrow> NaN)
         | PInf \<Rightarrow> Fin (- 15) | NInf \<Rightarrow> PInf | NaN \<Rightarrow> NaN) \<and>
      (\<forall>m q. mass = Fin m \<longrightarrow> round64 (- m / r) = Fin q \<longrightarrow>
         \<bar>q - (- m / r)\<bar> \<le> \<bar>m / r\<bar> / 2 ^ 53 + 1 / 2 ^ 1075)"
      by (rule curvature_field_elementwise [of mass, THEN conjunct2, rule_format, of 0 0])
        simp_all
    then obtain r where rr: "0 < r \<and> R_base module_init ! 0 ! 0 = Fin r \<and>
      field_Z_clipped mass (R_base module_init) ! 0 ! 0 =
        (case mass of
           Fin m \<Rightarrow> (case round64 (- m / r) of
                       Fin q \<Rightarrow> Fin (max q (- 15)) | PInf \<Rightarrow> PInf | NInf \<Rightarrow> Fin (- 15)
                     | NaN \<Rightarrow> NaN)
         | PInf \<Rightarrow> Fin (- 15) | NInf \<Rightarrow> PInf | NaN \<Rightarrow> NaN) \<and>
      (\<forall>m q. mass = Fin m \<longrightarrow> round64 (- m / r) = Fin q \<longrightarrow>
         \<bar>q - (- m / r)\<bar> \<le> \<bar>m / r\<bar> / 2 ^ 53 + 1 / 2 ^ 1075)" ..
    note r = rr [THEN conjunct2, THEN conjunct1]
      rr [THEN conjunct2, THEN conjunct2, THEN conjunct1]
    from r(1) corner have "r = r0" by simp
    from r(2) show ?thesis unfolding \<open>r = r0\<close> .
  qed
  have sh: "shape (field_Z_clipped (Fin 1000) (R_base module_init)) 100 100"
    using curvature_field_elementwise [of "Fin 1000"] by (rule conjunct1)
  have e1000: "field_Z_clipped (Fin 1000) (R_base module_init) ! 0 ! 0 = Fin (- 15)"
  proof -
    define x where "x = - 1000 / r0"
    have b: "- 36 * r0 < - 1000" "- 1000 < - 34 * r0"
      using r0 by linarith+
    have x: "- 36 < x" "x < - 34"
      unfolding x_def
      by (rule quotient_between(1) [OF r0(3) b(1)]) (rule quotient_between(2) [OF r0(3) b(2)])
    from x have "\<bar>x\<bar> \<le> 1024" by linarith
    with x obtain q where q: "round64 x = Fin q" "- 36 - 1 / 2 ^ 40 < q" "q < - 34 + 1 / 2 ^ 40"
      by (rule round64_bracket)
    have "field_Z_clipped (Fin 1000) (R_base module_init) ! 0 ! 0 = Fin (max q (- 15))"
      using q(1) unfolding x_def by (simp only: elt float64.case)
    then show ?thesis
      using q(3) by simp
  qed
  have e10: "flt (Fin (- 36 / 100)) (field_Z_clipped (Fin 10) (R_base module_init) ! 0 ! 0) \<and>
       flt (field_Z_clipped (Fin 10) (R_base module_init) ! 0 ! 0) (Fin (- 34 / 100))"
  proof -
    define x where "x = - 10 / r0"
    have b: "- 358 / 1000 * r0 < - 10" "- 10 < - 344 / 1000 * r0"
      using r0 by linarith+
    have x: "- 358 / 1000 < x" "x < - 344 / 1000"
      unfolding x_def
      by (rule quotient_between(1) [OF r0(3) b(1)]) (rule quotient_between(2) [OF r0(3) b(2)])
    from x have "\<bar>x\<bar> \<le> 1024" by linarith
    with x obtain q where q: "round64 x = Fin q" "- 358 / 1000 - 1 / 2 ^ 40 < q"
        "q < - 344 / 1000 + 1 / 2 ^ 40"
      by (rule round64_bracket)
    have "field_Z_clipped (Fin 10) (R_base module_init) ! 0 ! 0 = Fin (max q (- 15))"
      using q(1) unfolding x_def by (simp only: elt float64.case)
    then show ?thesis
      using q(2,3) by simp
  qed
  have e0: "field_Z_clipped (Fin 0) (R_base module_init) ! 0 ! 0 = Fin 0"
    by (simp add: elt round64_zero)
  have einf: "field_Z_clipped PInf (R_base module_init) ! 0 ! 0 = Fin (- 15)"
    "field_Z_clipped NInf (R_base module_init) ! 0 ! 0 = PInf"
    "field_Z_clipped NaN (R_base module_init) ! 0 ! 0 = NaN"
    by (simp_all add: elt)
  show ?thesis
    using sh e1000 e10 e0 einf by simp
qed

lemma clip_of_nonneg_mass:
  assumes "0 < r" "fle (Fin 0) mass"
  shows "fle (fmaximum (fdiv (fneg mass) (Fin r)) (Fin (- 15))) (Fin 0) \<and>
         fle (Fin (- 15)) (fmaximum (fdiv (fneg mass) (Fin r)) (Fin (- 15)))"
proof (cases mass)
  case (Fin m)
  define x where "x = - m / r"
  from Fin assms have "0 \<le> m" by simp
  then have x: "x \<le> 0" using assms(1) by (simp add: x_def divide_nonpos_pos)
  have d: "fdiv (fneg mass) (Fin r) = round64 x"
    unfolding Fin x_def by (rule fdiv_neg_fin [OF assms(1)])
  show ?thesis
  proof (cases "round64 x")
    case (Fin y)
    then have "y \<le> 0" using round64_sign [of x y] x by simp
    then show ?thesis by (simp add: d Fin)
  next
    case PInf
    then show ?thesis using round64_inf(1) [of x] x by simp
  next
    case NInf
    then show ?thesis by (simp add: d)
  next
    case NaN
    then show ?thesis by (simp add: round64_not_NaN)
  qed
next
  case PInf
  then show ?thesis using assms(1) by (simp add: inf_of_sign_def)
next
  case NInf
  with assms show ?thesis by simp
next
  case NaN
  with assms show ?thesis by simp
qed

lemma clip_of_neg_mass:
  assumes "0 < r" "flt mass (Fin 0)"
  shows "fmaximum (fdiv (fneg mass) (Fin r)) (Fin (- 15)) = fdiv (fneg mass) (Fin r) \<and>
         fle (Fin 0) (fdiv (fneg mass) (Fin r))"
proof (cases mass)
  case (Fin m)
  define x where "x = - m / r"
  from Fin assms have "m < 0" by simp
  then have x: "0 < x" using assms(1) by (simp add: x_def divide_neg_pos)
  have d: "fdiv (fneg mass) (Fin r) = round64 x"
    unfolding Fin x_def by (rule fdiv_neg_fin [OF assms(1)])
  show ?thesis
  proof (cases "round64 x")
    case (Fin y)
    then have "0 \<le> y" using round64_sign [of x y] x by simp
    then show ?thesis by (simp add: d Fin)
  next
    case PInf
    then show ?thesis by (simp add: d)
  next
    case NInf
    then show ?thesis using round64_inf(2) [of x] x by simp
  next
    case NaN
    then show ?thesis by (simp add: round64_not_NaN)
  qed
next
  case PInf
  with assms show ?thesis by simp
next
  case NInf
  then show ?thesis using assms(1) by (simp add: inf_of_sign_def)
next
  case NaN
  with assms show ?thesis by simp
qed


text \<open>
  A quotient \<open>-m / r\<close> above \<open>2 ^ (- 1075)\<close> is rounded to a positive double or to
  infinity; one of at most \<open>2 ^ (- 1075)\<close> is rounded to zero.
\<close>

lemma pos_of_neg_mass:
  assumes "0 < r" "r < - m * 2 ^ 1075"
  shows "flt (Fin 0) (fdiv (fneg (Fin m)) (Fin r))"
proof -
  define x where "x = - m / r"
  have "r / 2 ^ 1075 < - m"
    using assms(2) by (simp add: pos_divide_less_eq)
  then have "1 / 2 ^ 1075 * r < - m" by simp
  then have x: "1 / 2 ^ 1075 < x"
    unfolding x_def using assms(1) by (simp only: pos_less_divide_eq)
  have "(0::real) < 1 / 2 ^ 1075" by simp
  then have pos: "0 < x" using x by (rule less_trans)
  have nz: "round64 x \<noteq> Fin 0"
    using x pos by (intro round64_nonzero) simp
  have d: "fdiv (fneg (Fin m)) (Fin r) = round64 x"
    unfolding x_def by (rule fdiv_neg_fin [OF assms(1)])
  have "flt (Fin 0) (round64 x)"
  proof (cases "round64 x")
    case (Fin y)
    then have "0 \<le> y" using round64_sign [of x y] pos by simp
    moreover have "y \<noteq> 0" using nz Fin by simp
    ultimately show ?thesis by (simp add: Fin)
  next
    case PInf
    then show ?thesis by simp
  next
    case NInf
    then show ?thesis using round64_inf(2) [of x] pos by simp
  next
    case NaN
    then show ?thesis by (simp add: round64_not_NaN)
  qed
  then show ?thesis
    by (simp only: d)
qed

lemma zero_of_tiny_mass:
  assumes "0 < r" "\<bar>m\<bar> * 2 ^ 1075 \<le> r"
  shows "fdiv (fneg (Fin m)) (Fin r) = Fin 0"
proof -
  define x where "x = - m / r"
  have "\<bar>m\<bar> \<le> r / 2 ^ 1075"
    using assms(2) by (simp add: pos_le_divide_eq)
  then have "\<bar>m\<bar> \<le> 1 / 2 ^ 1075 * r" by simp
  then have "\<bar>m\<bar> / r \<le> 1 / 2 ^ 1075"
    using assms(1) by (simp only: pos_divide_le_eq)
  moreover have "\<bar>x\<bar> = \<bar>m\<bar> / r"
    using assms(1) by (simp add: x_def)
  ultimately have "\<bar>x\<bar> \<le> 1 / 2 ^ 1075" by simp
  then have "round64 x = Fin 0"
    by (rule round64_tiny)
  then show ?thesis
    unfolding x_def by (simp only: fdiv_neg_fin [OF assms(1)])
qed

text \<open>
  Claim C5. For every mass that is at least 0 (positive infinity included), every
  element of the clipped curvature field over the precomputed base radial field is at
  most 0 and at least \<open>-15\<close>.
\<close>

theorem field_within_clip_range:
  assumes "fle (Fin 0) mass" "i < 100" "j < 100"
  shows "fle (field_Z_clipped mass (R_base module_init) ! i ! j) (Fin 0) \<and>
         fle (Fin (- 15)) (field_Z_clipped mass (R_base module_init) ! i ! j)"
proof -
  obtain r where r: "R_base module_init ! i ! j = Fin r" "0 < r"
    using R_base_pos assms by blast
  have "field_Z_clipped mass (R_base module_init) ! i ! j =
        fmaximum (fdiv (fneg mass) (Fin r)) (Fin (- 15))"
    using nth_field_Z_clipped [OF shape_R_base assms(2,3)] r by (simp add: CLIP_VALUE_def)
  then show ?thesis
    using clip_of_nonneg_mass [OF r(2) assms(1)] by simp
qed

theorem field_within_clip_range_witness:
  "fle (Fin 0) (Fin 10) \<and> (7::nat) < 100 \<and> (42::nat) < 100 \<and>
   fle (field_Z_clipped (Fin 10) (R_base module_init) ! 7 ! 42) (Fin 0) \<and>
   fle (Fin (- 15)) (field_Z_clipped (Fin 10) (R_base module_init) ! 7 ! 42) \<and>
   fle (field_Z_clipped PInf (R_base module_init) ! 0 ! 99) (Fin 0) \<and>
   fle (Fin (- 15)) (field_Z_clipped (Fin 0) (R_base module_init) ! 50 ! 50)"
  using field_within_clip_range [of "Fin 10" 7 42] field_within_clip_range [of PInf 0 99]
    field_within_clip_range [of "Fin 0" 50 50]
  by simp

text \<open>
  Claim C10, as amended. For every mass below 0 (negative infinity included), every
  element of the clipped curvature field is the quotient \<open>-mass / R_base[i][j]\<close> as
  the division returns it, so the floor of \<open>-15\<close> does not engage, and it is not
  negative. It is strictly positive when the quotient exceeds \<open>2 ^ (- 1075)\<close>, and it
  is zero when the quotient is at most \<open>2 ^ (- 1075)\<close>, where the division underflows.
  Nothing bounds it from above: a finite element is at least
  \<open>-mass / r - (-mass / r / 2 ^ 53 + 2 ^ (- 1075))\<close>, and for the mass \<open>-inf\<close> the element
  is \<open>+inf\<close>.
\<close>

theorem negative_mass_unclipped_nonnegative:
  assumes "i < 100" "j < 100"
  shows "(flt mass (Fin 0) \<longrightarrow>
           field_Z_clipped mass (R_base module_init) ! i ! j =
             fdiv (fneg mass) (R_base module_init ! i ! j) \<and>
           fle (Fin 0) (field_Z_clipped mass (R_base module_init) ! i ! j)) \<and>
         (\<forall>m r. mass = Fin m \<longrightarrow> R_base module_init ! i ! j = Fin r \<longrightarrow> r < - m * 2 ^ 1075 \<longrightarrow>
           flt (Fin 0) (field_Z_clipped mass (R_base module_init) ! i ! j)) \<and>
         (\<forall>m r. mass = Fin m \<longrightarrow> R_base module_init ! i ! j = Fin r \<longrightarrow> \<bar>m\<bar> * 2 ^ 1075 \<le> r \<longrightarrow>
           field_Z_clipped mass (R_base module_init) ! i ! j = Fin 0) \<and>
         (\<forall>m r q. mass = Fin m \<longrightarrow> m < 0 \<longrightarrow> R_base module_init ! i ! j = Fin r \<longrightarrow>
           field_Z_clipped mass (R_base module_init) ! i ! j = Fin q \<longrightarrow>
           - m / r - (- m / r / 2 ^ 53 + 1 / 2 ^ 1075) \<le> q) \<and>
         field_Z_clipped NInf (R_base module_init) ! i ! j = PInf"
proof -
  obtain r0 where r0: "R_base module_init ! i ! j = Fin r0" "0 < r0"
    using R_base_pos assms by blast
  have elt: "field_Z_clipped mass' (R_base module_init) ! i ! j =
        fmaximum (fdiv (fneg mass') (Fin r0)) (Fin (- 15))" for mass'
    using nth_field_Z_clipped [OF shape_R_base assms] r0 by (simp add: CLIP_VALUE_def)
  have unclipped: "field_Z_clipped mass' (R_base module_init) ! i ! j = fdiv (fneg mass') (Fin r0)"
    if "flt mass' (Fin 0)" for mass'
    using clip_of_neg_mass [OF r0(2) that] by (simp only: elt)
  have c1: "flt mass (Fin 0) \<longrightarrow>
           field_Z_clipped mass (R_base module_init) ! i ! j =
             fdiv (fneg mass) (R_base module_init ! i ! j) \<and>
           fle (Fin 0) (field_Z_clipped mass (R_base module_init) ! i ! j)"
  proof
    assume neg: "flt mass (Fin 0)"
    from clip_of_neg_mass [OF r0(2) neg] unclipped [OF neg]
    show "field_Z_clipped mass (R_base module_init) ! i ! j =
             fdiv (fneg mass) (R_base module_init ! i ! j) \<and>
           fle (Fin 0) (field_Z_clipped mass (R_base module_init) ! i ! j)"
      by (simp only: r0(1) simp_thms)
  qed
  have c2: "\<forall>m r. mass = Fin m \<longrightarrow> R_base module_init ! i ! j = Fin r \<longrightarrow> r < - m * 2 ^ 1075 \<longrightarrow>
           flt (Fin 0) (field_Z_clipped mass (R_base module_init) ! i ! j)"
  proof (intro allI impI)
    fix m r
    assume m: "mass = Fin m" and r: "R_base module_init ! i ! j = Fin r" and b: "r < - m * 2 ^ 1075"
    from r r0(1) have rr: "r = r0" by simp
    have "0 < - m * 2 ^ 1075" using b r0(2) rr by linarith
    then have "m < 0" by (simp add: zero_less_mult_iff)
    then have "flt mass (Fin 0)" by (simp add: m)
    then have "field_Z_clipped mass (R_base module_init) ! i ! j = fdiv (fneg (Fin m)) (Fin r0)"
      unfolding m by (rule unclipped)
    moreover have "flt (Fin 0) (fdiv (fneg (Fin m)) (Fin r0))"
      using r0(2) b unfolding rr by (rule pos_of_neg_mass)
    ultimately show "flt (Fin 0) (field_Z_clipped mass (R_base module_init) ! i ! j)"
      by (simp only:)
  qed
  have c3: "\<forall>m r. mass = Fin m \<longrightarrow> R_base module_init ! i ! j = Fin r \<longrightarrow> \<bar>m\<bar> * 2 ^ 1075 \<le> r \<longrightarrow>
           field_Z_clipped mass (R_base module_init) ! i ! j = Fin 0"
  proof (intro allI impI)
    fix m r
    assume m: "mass = Fin m" and r: "R_base module_init ! i ! j = Fin r" and b: "\<bar>m\<bar> * 2 ^ 1075 \<le> r"
    from r r0(1) have rr: "r = r0" by simp
    have "fdiv (fneg (Fin m)) (Fin r0) = Fin 0"
      using r0(2) b unfolding rr by (rule zero_of_tiny_mass)
    then have "fmaximum (fdiv (fneg (Fin m)) (Fin r0)) (Fin (- 15)) = Fin 0"
      by (simp only: fmaximum_clip) simp
    then show "field_Z_clipped mass (R_base module_init) ! i ! j = Fin 0"
      by (simp only: elt m)
  qed
  have c4: "\<forall>m r q. mass = Fin m \<longrightarrow> m < 0 \<longrightarrow> R_base module_init ! i ! j = Fin r \<longrightarrow>
           field_Z_clipped mass (R_base module_init) ! i ! j = Fin q \<longrightarrow>
           - m / r - (- m / r / 2 ^ 53 + 1 / 2 ^ 1075) \<le> q"
  proof (intro allI impI)
    fix m r q
    assume m: "mass = Fin m" "m < 0" and r: "R_base module_init ! i ! j = Fin r"
      and q: "field_Z_clipped mass (R_base module_init) ! i ! j = Fin q"
    from r r0(1) have rr: "r = r0" by simp
    define x where "x = - m / r0"
    have x: "0 < x" using m(2) r0(2) by (simp add: x_def divide_neg_pos)
    have "flt mass (Fin 0)" using m by simp
    then have "field_Z_clipped mass (R_base module_init) ! i ! j = fdiv (fneg (Fin m)) (Fin r0)"
      unfolding m(1) by (rule unclipped)
    also have "\<dots> = round64 x"
      unfolding x_def by (rule fdiv_neg_fin [OF r0(2)])
    finally have "round64 x = Fin q" using q by simp
    then have "\<bar>q - x\<bar> \<le> \<bar>x\<bar> / 2 ^ 53 + 1 / 2 ^ 1075"
      by (rule round64_near)
    then have "x - (x / 2 ^ 53 + 1 / 2 ^ 1075) \<le> q"
      using x by linarith
    then show "- m / r - (- m / r / 2 ^ 53 + 1 / 2 ^ 1075) \<le> q"
      by (simp only: x_def rr)
  qed
  have c5: "field_Z_clipped NInf (R_base module_init) ! i ! j = PInf"
    using r0(2) by (simp add: elt inf_of_sign_def)
  show ?thesis
    by (intro conjI c1 c2 c3 c4 c5)
qed

theorem negative_mass_unclipped_nonnegative_witness:
  "(0::nat) < 100 \<and> flt (Fin (- 2)) (Fin 0) \<and>
   R_base module_init ! 0 ! 0 = Fin (sqrt 800 + 1 / 1000000) \<and>
   sqrt 800 + 1 / 1000000 < - (- 2) * 2 ^ 1075 \<and>
   field_Z_clipped (Fin (- 2)) (R_base module_init) ! 0 ! 0 =
     fdiv (fneg (Fin (- 2))) (R_base module_init ! 0 ! 0) \<and>
   fle (Fin 0) (field_Z_clipped (Fin (- 2)) (R_base module_init) ! 0 ! 0) \<and>
   flt (Fin 0) (field_Z_clipped (Fin (- 2)) (R_base module_init) ! 0 ! 0) \<and>
   field_Z_clipped NInf (R_base module_init) ! 0 ! 0 = PInf"
proof -
  have b: "sqrt 800 + 1 / 1000000 < - (- 2) * 2 ^ 1075"
  proof -
    have "sqrt 800 + 1 / 1000000 < 30" using sqrt_800 by simp
    also have "(30::real) < - (- 2) * 2 ^ 1075" by simp
    finally show ?thesis .
  qed
  note inst = negative_mass_unclipped_nonnegative [of 0 0 "Fin (- 2)"]
  have n: "(0::nat) < 100" by simp
  have neg: "flt (Fin (- 2)) (Fin 0)" by simp
  note all = inst [OF n n]
  note c1 = all [THEN conjunct1, rule_format, OF neg]
  note c2 = all [THEN conjunct2, THEN conjunct1, rule_format, OF refl R_base_corner b]
  note c5 = all [THEN conjunct2, THEN conjunct2, THEN conjunct2, THEN conjunct2]
  show ?thesis
    by (intro conjI n neg R_base_corner b c1 [THEN conjunct1] c1 [THEN conjunct2] c2 c5)
qed

text \<open>
  The claim as stated, a strictly positive element for every mass below 0, fails for
  the mass \<open>-2 ^ (- 1074)\<close>, the negative double nearest to zero (\<open>-5e-324\<close>): at the
  corner of the grid the quotient underflows and the element is zero.
\<close>

theorem tiny_negative_mass_gives_zero:
  "flt (Fin (- (1 / 2 ^ 1074))) (Fin 0) \<and>
   field_Z_clipped (Fin (- (1 / 2 ^ 1074))) (R_base module_init) ! 0 ! 0 = Fin 0"
proof -
  define m :: real where "m = - (1 / 2 ^ 1074)"
  define r0 :: real where "r0 = sqrt 800 + 1 / 1000000"
  have r0: "0 < r0" "2 \<le> r0"
    using sqrt_800 by (simp_all add: r0_def)
  have "\<bar>m\<bar> * 2 ^ 1075 = 2" by (simp add: m_def)
  then have "\<bar>m\<bar> * 2 ^ 1075 \<le> r0" using r0(2) by simp
  with r0(1) have "fdiv (fneg (Fin m)) (Fin r0) = Fin 0"
    by (rule zero_of_tiny_mass)
  then have "fmaximum (fdiv (fneg (Fin m)) (Fin r0)) (Fin (- 15)) = Fin 0"
    by (simp only: fmaximum_clip) simp
  moreover have "field_Z_clipped (Fin m) (R_base module_init) ! 0 ! 0 =
      fmaximum (fdiv (fneg (Fin m)) (Fin r0)) (Fin (- 15))"
    using nth_field_Z_clipped [OF shape_R_base, of 0 0 "Fin m"]
    by (simp add: CLIP_VALUE_def R_base_corner r0_def)
  ultimately have "field_Z_clipped (Fin m) (R_base module_init) ! 0 ! 0 = Fin 0"
    by (simp only:)
  moreover have "flt (Fin m) (Fin 0)" by (simp add: m_def)
  ultimately show ?thesis
    unfolding m_def by (intro conjI)
qed

section \<open>The test particle\<close>

lemma sqrt_169: "sqrt 169 = 13"
proof -
  have "sqrt 169 = sqrt (13\<^sup>2)" by simp
  also have "\<dots> = 13" by (simp only: real_sqrt_abs abs_numeral)
  finally show ?thesis .
qed

lemma r_sphere_eq: "r_sphere = Fin (13000001 / 1000000)"
  by (simp add: r_sphere_def SPHERE_X_def SPHERE_Y_def EPS_def sqrt_169)

text \<open>
  Claim C3, as amended. For every mass, the z-value of the test particle is the
  maximum of \<open>-mass / (sqrt(12\<^sup>2 + 5\<^sup>2) + 1e-6)\<close> and \<open>-15\<close>: the radial distance of the
  particle carries the same \<open>1e-6\<close> as the base radial field, so the divisor is
  13.000001 and not 13. It is the z-value of the marker in the figure handed to
  \<open>savefig\<close>.
\<close>

theorem test_particle_z:
  "z_sphere_clipped mass = fmaximum (fdiv (fneg mass) (Fin (sqrt (12\<^sup>2 + 5\<^sup>2) + 1 / 1000000))) (Fin (- 15)) \<and>
   z_sphere_clipped mass = fmaximum (fdiv (fneg mass) (Fin (13000001 / 1000000))) (Fin (- 15)) \<and>
   artists (hd (axes (drawn_figure mass s))) ! 1 =
     Line3D [Fin 12] [Fin 5] [z_sphere_clipped mass] ''o'' 8 ''cyan'' ''Test Particle''"
  by (simp add: z_sphere_clipped_def r_sphere_eq CLIP_VALUE_def sqrt_169 drawn_figure_def
      SPHERE_X_def SPHERE_Y_def)

text \<open>
  The claim as stated, without the \<open>1e-6\<close>, fails at mass 13: the code plots
  \<open>-13 / 13.000001\<close>, the claim's formula gives \<open>-1\<close>.
\<close>

theorem test_particle_z_not_exact:
  "z_sphere_clipped (Fin 13) \<noteq>
     fmaximum (fdiv (fneg (Fin 13)) (fsqrt (Fin (12\<^sup>2 + 5\<^sup>2)))) (Fin (- 15))"
proof -
  define x :: real where "x = - 13 / (13000001 / 1000000)"
  have "\<bar>x\<bar> \<le> 2 ^ 1022" by (simp add: x_def)
  then obtain y where y: "round64 x = Fin y"
    using round64_fin by blast
  have "\<bar>y - x\<bar> \<le> \<bar>x\<bar> / 2 ^ 53 + 1 / 2 ^ 1075"
    using y by (rule round64_near)
  moreover have "\<bar>x\<bar> / 2 ^ 53 + 1 / 2 ^ 1075 < x + 1" "x < 0"
    by (simp_all add: x_def)
  ultimately have bounds: "- 1 < y" "y < 15"
    by linarith+
  have "z_sphere_clipped (Fin 13) = fmaximum (round64 x) (Fin (- 15))"
    by (simp add: z_sphere_clipped_def r_sphere_eq CLIP_VALUE_def x_def)
  also have "\<dots> = Fin y"
    using bounds by (simp add: y)
  finally have lhs: "z_sphere_clipped (Fin 13) = Fin y" .
  have "round64 (- 1) = Fin (- 1)"
    using round64_minus [of 1] by (simp add: round64_one)
  then have "fmaximum (fdiv (fneg (Fin 13)) (fsqrt (Fin (12\<^sup>2 + 5\<^sup>2)))) (Fin (- 15)) = Fin (- 1)"
    by (simp add: sqrt_169)
  then show ?thesis
    using bounds by (simp add: lhs)
qed

section \<open>The plotting function, step by step\<close>

text \<open>
  The number \<open>plt.figure\<close> picks is not in use, so the drawing calls, \<open>savefig\<close> and
  \<open>plt.close\<close> all act on the entry that \<open>plt.figure\<close> appended.
\<close>

lemma foldr_max_ge: "k \<in> set ks \<Longrightarrow> k \<le> foldr max ks (0::nat)"
  by (induction ks) auto

lemma fresh_num: "next_fig_num s \<notin> fst ` set (figs s)"
proof
  assume "next_fig_num s \<in> fst ` set (figs s)"
  then have "Suc (foldr max (map fst (figs s)) 0) \<in> set (map fst (figs s))"
    by (simp add: next_fig_num_def)
  from foldr_max_ge [OF this] show False by simp
qed

lemma map_upd_other: "n \<notin> fst ` set F \<Longrightarrow> map (\<lambda>(k, f). if k = n then (k, g f) else (k, f)) F = F"
  by (induction F) auto

lemma map_of_fresh: "n \<notin> fst ` set F \<Longrightarrow> map_of (F @ [(n, f0)]) n = Some f0"
  by (induction F) auto

lemma filter_fresh: "n \<notin> fst ` set F \<Longrightarrow> filter (\<lambda>(k, f). k \<noteq> n) (F @ [(n, f0)]) = F"
  by (induction F) auto

lemma plt_figure_eq:
  "plt_figure sz s = (next_fig_num s, s\<lparr>figs := figs s @ [(next_fig_num s, \<lparr>figsize = sz, axes = []\<rparr>)]\<rparr>)"
  by (simp add: plt_figure_def next_fig_num_def Let_def)

lemma upd_fig_top:
  "n \<notin> fst ` set F \<Longrightarrow> upd_fig n g (s\<lparr>figs := F @ [(n, f0)]\<rparr>) = s\<lparr>figs := F @ [(n, g f0)]\<rparr>"
  by (simp add: upd_fig_def map_upd_other)

lemma add_subplot_top:
  "n \<notin> fst ` set F \<Longrightarrow> fig_add_subplot n (s\<lparr>figs := F @ [(n, f0)]\<rparr>) =
     ((n, length (axes f0)), s\<lparr>figs := F @ [(n, f0\<lparr>axes := axes f0 @ [new_axes]\<rparr>)]\<rparr>)"
  by (simp add: fig_add_subplot_def upd_fig_top map_of_fresh Let_def del: map_of_append)

lemma upd_ax_top:
  "n \<notin> fst ` set F \<Longrightarrow> k < length (axes f0) \<Longrightarrow>
   upd_ax (n, k) g (s\<lparr>figs := F @ [(n, f0)]\<rparr>) =
     s\<lparr>figs := F @ [(n, f0\<lparr>axes := (axes f0)[k := g (axes f0 ! k)]\<rparr>)]\<rparr>"
  by (simp add: upd_ax_def upd_fig_top)

lemma savefig_top:
  "n \<notin> fst ` set F \<Longrightarrow>
   fig_savefig L n fmt bb (s\<lparr>figs := F @ [(n, f0)]\<rparr>) =
     (case savefig L f0 fmt bb (lib_state s) of
        (r, h) \<Rightarrow> (r, s\<lparr>figs := F @ [(n, f0)], lib_state := h\<rparr>))"
  by (simp add: fig_savefig_def map_of_fresh del: map_of_append)

lemma close_top:
  "n \<notin> fst ` set F \<Longrightarrow>
   plt_close n (s\<lparr>figs := F @ [(n, f0)], lib_state := h\<rparr>) = s\<lparr>figs := F, lib_state := h\<rparr>"
  by (simp add: plt_close_def filter_fresh del: filter_append)

lemma generate_plot_image_eq:
  "generate_plot_image L mass_value s =
     (case savefig L (drawn_figure mass_value s) ''png'' ''tight'' (lib_state s) of
        (Inl e, h) \<Rightarrow>
          (Inl e, s\<lparr>figs := figs s @ [(next_fig_num s, drawn_figure mass_value s)],
                    lib_state := h\<rparr>)
      | (Inr png, h) \<Rightarrow> (Inr (''data:image/png;base64,'' @ b64encode png), s\<lparr>lib_state := h\<rparr>))"
proof -
  note fresh = fresh_num [of s]
  show ?thesis
    unfolding generate_plot_image_def plt_figure_eq
    using fresh
    by (simp add: add_subplot_top ax_plot_surface_def ax_plot_def ax_set_title_def
        ax_set_xlabel_def ax_set_ylabel_def ax_set_zlabel_def ax_set_zlim_def ax_legend_def
        upd_ax_top savefig_top close_top drawn_figure_def new_axes_def
        split: sum.splits prod.splits)
qed

section \<open>The grid is read-only\<close>

lemma generate_plot_image_frame:
  "X (snd (generate_plot_image L m s)) = X s"
  "Y (snd (generate_plot_image L m s)) = Y s"
  "R_base (snd (generate_plot_image L m s)) = R_base s"
  by (simp_all add: generate_plot_image_eq split: sum.splits prod.splits)

lemma simulation_endpoint_frame:
  "X (snd (simulation_endpoint L args s)) = X s"
  "Y (snd (simulation_endpoint L args s)) = Y s"
  "R_base (snd (simulation_endpoint L args s)) = R_base s"
  using generate_plot_image_frame [of L "args_get args ''mass'' INITIAL_MASS py_float" s]
  by (auto simp: simulation_endpoint_def Let_def split: prod.splits sum.splits)

lemma serve_frame:
  "X (snd (serve L reqs s)) = X s \<and> Y (snd (serve L reqs s)) = Y s \<and>
   R_base (snd (serve L reqs s)) = R_base s"
proof (induction reqs arbitrary: s)
  case Nil
  show ?case by simp
next
  case (Cons args rest)
  obtain resp s' where step: "simulation_endpoint L args s = (resp, s')"
    by (cases "simulation_endpoint L args s")
  have "snd (serve L (args # rest) s) = snd (serve L rest s')"
    by (simp add: step split: prod.splits)
  moreover have "X s' = X s" "Y s' = Y s" "R_base s' = R_base s"
    using simulation_endpoint_frame [of L args s] by (simp_all add: step)
  ultimately show ?case
    using Cons.IH [of s'] by simp
qed

text \<open>
  Claim C9. The grid arrays \<open>X\<close>, \<open>Y\<close> and the base radial field \<open>R_base\<close> are set
  once, by the module's initialisation, and no call of the plotting function changes
  them, whether it returns or raises: after any call they are what they were before
  it, and after the server has answered any sequence of requests they still have
  their initial values.
\<close>

theorem grid_never_changes:
  "X (snd (generate_plot_image L m s)) = X s \<and>
   Y (snd (generate_plot_image L m s)) = Y s \<and>
   R_base (snd (generate_plot_image L m s)) = R_base s \<and>
   X (snd (serve L reqs module_init)) = X module_init \<and>
   Y (snd (serve L reqs module_init)) = Y module_init \<and>
   R_base (snd (serve L reqs module_init)) = R_base module_init"
  using serve_frame [of L reqs module_init]
  by (simp add: generate_plot_image_frame)

theorem grid_never_changes_witness:
  "X (snd (serve lib_raising [[], [(''mass'', ''2.5'')]] module_init)) = X module_init \<and>
   R_base (snd (generate_plot_image lib_writing (Fin 3) module_init)) = R_base module_init"
  using grid_never_changes [of lib_raising "Fin 3" module_init "[[], [(''mass'', ''2.5'')]]"]
    grid_never_changes [of lib_writing "Fin 3" module_init "[]"]
  by simp

section \<open>Determinism of the pipeline\<close>

lemma b64encode_png_signature: "b64encode png_signature = ''iVBORw0KGgo=''"
  by (simp add: png_signature_def b64_char_def b64_alphabet_def Let_def)


lemma fst_generate_plot_image:
  "fst (generate_plot_image L m s) =
     (case fst (savefig L (drawn_figure m s) ''png'' ''tight'' (lib_state s)) of
        Inl e \<Rightarrow> Inl e
      | Inr png \<Rightarrow> Inr (''data:image/png;base64,'' @ b64encode png))"
  by (simp add: generate_plot_image_eq split: sum.splits prod.splits)



text \<open>
  The property is one of the library as much as of the program: with a library whose
  \<open>savefig\<close> numbers the images it writes, the second of two calls with the same mass
  returns another image than the first.
\<close>

lemma numbering_library_gives_another_image:
  "\<not> renders_by_figure lib_numbering \<and>
   fst (generate_plot_image lib_numbering INITIAL_MASS module_init) =
     Inr ''data:image/png;base64,iVBORw0KGgoA'' \<and>
   fst (generate_plot_image lib_numbering INITIAL_MASS
          (snd (generate_plot_image lib_numbering INITIAL_MASS module_init))) =
     Inr ''data:image/png;base64,iVBORw0KGgoB''"
proof -
  have "fst (savefig lib_numbering f ''png'' ''tight'' 0) \<noteq>
        fst (savefig lib_numbering f ''png'' ''tight'' 1)" for f
    by (simp add: lib_numbering_def)
  then have "\<not> renders_by_figure lib_numbering"
    unfolding renders_by_figure_def by blast
  moreover have "b64encode (png_signature @ [0]) = ''iVBORw0KGgoA''"
    "b64encode (png_signature @ [1]) = ''iVBORw0KGgoB''"
    by (simp_all add: png_signature_def b64_char_def b64_alphabet_def Let_def)
  moreover have "lib_state (snd (generate_plot_image lib_numbering INITIAL_MASS module_init)) = 1"
    by (simp add: generate_plot_image_eq lib_numbering_def module_init_fields)
  ultimately show ?thesis
    by (simp add: fst_generate_plot_image lib_numbering_def module_init_fields)
qed

section \<open>Release of the figure\<close>

text \<open>
  Claim C4 asks that the figure be released on every exit path. Evaluated with a
  \<open>savefig\<close> that raises, for the default mass in the initial state: the call
  propagates the exception and figure 1 is still registered afterwards, whereas the
  same call with a \<open>savefig\<close> that returns leaves no figure registered.
\<close>

theorem figure_left_open_when_savefig_raises:
  "fst (generate_plot_image lib_raising INITIAL_MASS module_init) = Inl (Exception ''out of memory'') \<and>
   map fst (figs (snd (generate_plot_image lib_raising INITIAL_MASS module_init))) = [1] \<and>
   figs (snd (generate_plot_image lib_writing INITIAL_MASS module_init)) = []"
  by (simp add: generate_plot_image_eq lib_raising_def lib_writing_def module_init_fields
      next_fig_num_def)

section \<open>The request handler\<close>

lemma py_float_abc: "py_float ''abc'' = None"
  by (simp add: py_float_def strip_def is_space_def split_sign_def lower_def number_def
      digitpart_def is_digit_def)

lemma py_float_10_0: "py_float ''10.0'' = Some (Fin 10)"
  by (simp add: py_float_def strip_def is_space_def split_sign_def lower_def number_def
      digitpart_def is_digit_def digit_val_def exponent_def decimal_value_def nat_of_digits_def
      round64_ten)

text \<open>
  The separators 28 to 31 are not whitespace for \<open>float\<close>, the no-break space is: the
  first text below is rejected, the second is the number 5.
\<close>

lemma py_float_separator: "py_float [CHR 0x1C, CHR ''7''] = None"
  by (simp add: py_float_def strip_def is_space_def split_sign_def lower_def number_def
      digitpart_def is_digit_def)

lemma py_float_no_break_space: "py_float [CHR 0xA0, CHR ''5''] = Some (Fin 5)"
proof -
  have "round64 5 = Fin 5"
    using round64_of_nat [of 5] by simp
  then show ?thesis
    by (simp add: py_float_def strip_def is_space_def split_sign_def lower_def number_def
        digitpart_def is_digit_def digit_val_def exponent_def decimal_value_def nat_of_digits_def)
qed

lemma simulation_endpoint_eq:
  "simulation_endpoint L args s =
     (case savefig L (drawn_figure (args_get args ''mass'' INITIAL_MASS py_float) s)
             ''png'' ''tight'' (lib_state s) of
        (Inl e, h) \<Rightarrow>
          (([(''status'', JString ''error''), (''message'', JString (str_exn e))], 500),
           s\<lparr>figs := figs s @ [(next_fig_num s,
                drawn_figure (args_get args ''mass'' INITIAL_MASS py_float) s)],
             lib_state := h\<rparr>)
      | (Inr png, h) \<Rightarrow>
          (([(''status'', JString ''success''),
             (''mass_used'', JNumber (args_get args ''mass'' INITIAL_MASS py_float)),
             (''image_data'', JString (''data:image/png;base64,'' @ b64encode png))], 200),
           s\<lparr>lib_state := h\<rparr>))"
  by (simp add: simulation_endpoint_def generate_plot_image_eq Let_def
      split: sum.splits prod.splits)

text \<open>
  Claim C7. A request without the \<open>mass\<close> parameter is answered as the request
  \<open>mass=10.0\<close> is: same response, same state afterwards. The plotting function is
  called with mass 10.0, and the success response reports 10.0 as \<open>mass_used\<close>.
\<close>

theorem missing_mass_is_default:
  "map_of args ''mass'' = None \<Longrightarrow>
   simulation_endpoint L args s = simulation_endpoint L [(''mass'', ''10.0'')] s \<and>
   simulation_endpoint L args s =
     (case generate_plot_image L (Fin 10) s of
        (Inr image_data, s') \<Rightarrow>
          (([(''status'', JString ''success''), (''mass_used'', JNumber (Fin 10)),
             (''image_data'', JString image_data)], 200), s')
      | (Inl e, s') \<Rightarrow>
          (([(''status'', JString ''error''), (''message'', JString (str_exn e))], 500), s'))"
  by (simp add: simulation_endpoint_def args_get_def py_float_10_0 INITIAL_MASS_def Let_def)

theorem missing_mass_is_default_witness:
  "map_of ([(''unused'', ''1'')] :: (string \<times> string) list) ''mass'' = None \<and>
   simulation_endpoint lib_writing [(''unused'', ''1'')] module_init =
     simulation_endpoint lib_writing [(''mass'', ''10.0'')] module_init \<and>
   fst (simulation_endpoint lib_writing [(''unused'', ''1'')] module_init) =
     ([(''status'', JString ''success''), (''mass_used'', JNumber (Fin 10)),
       (''image_data'', JString ''data:image/png;base64,iVBORw0KGgo='')], 200)"
  using missing_mass_is_default [of "[(''unused'', ''1'')]" lib_writing module_init]
  by (simp add: simulation_endpoint_eq generate_plot_image_eq args_get_def py_float_10_0
      INITIAL_MASS_def lib_writing_def b64encode_png_signature)

text \<open>
  Claim C2, as amended. A \<open>mass\<close> value that \<open>float\<close> rejects is replaced by
  the default: the request is answered as the request without \<open>mass\<close> is, with the
  same response and the same state afterwards. The answer is the success response
  with status 200 and \<open>mass_used\<close> 10.0 when \<open>savefig\<close> returns, and the error
  response with status 500 and the text of the exception as message when it raises.
\<close>

theorem non_numeric_mass_falls_back_to_default:
  "map_of args ''mass'' = Some v \<Longrightarrow> py_float v = None \<Longrightarrow>
   simulation_endpoint L args s = simulation_endpoint L [] s \<and>
   fst (simulation_endpoint L args s) =
     (case fst (savefig L (drawn_figure (Fin 10) s) ''png'' ''tight'' (lib_state s)) of
        Inr png \<Rightarrow>
          ([(''status'', JString ''success''), (''mass_used'', JNumber (Fin 10)),
            (''image_data'', JString (''data:image/png;base64,'' @ b64encode png))], 200)
      | Inl e \<Rightarrow> ([(''status'', JString ''error''), (''message'', JString (str_exn e))], 500))"
  by (simp add: simulation_endpoint_eq args_get_def INITIAL_MASS_def
      split: sum.splits prod.splits)

theorem non_numeric_mass_falls_back_to_default_witness:
  "map_of [(''mass'', ''abc'')] ''mass'' = Some ''abc'' \<and> py_float ''abc'' = None \<and>
   simulation_endpoint lib_raising [(''mass'', ''abc'')] module_init =
     simulation_endpoint lib_raising [] module_init \<and>
   fst (simulation_endpoint lib_raising [(''mass'', ''abc'')] module_init) =
     ([(''status'', JString ''error''), (''message'', JString ''out of memory'')], 500)"
  using non_numeric_mass_falls_back_to_default
    [of "[(''mass'', ''abc'')]" "''abc''" lib_raising module_init]
  by (simp add: simulation_endpoint_eq args_get_def py_float_abc INITIAL_MASS_def lib_raising_def)

text \<open>
  The claim as stated, an error response and never status 200, fails for
  \<open>mass=abc\<close>: in the initial state, with a \<open>savefig\<close> that returns, the answer is
  the success response for the default mass, with status 200.
\<close>

theorem non_numeric_mass_answered_200:
  "fst (simulation_endpoint lib_writing [(''mass'', ''abc'')] module_init) =
     ([(''status'', JString ''success''), (''mass_used'', JNumber (Fin 10)),
       (''image_data'', JString ''data:image/png;base64,iVBORw0KGgo='')], 200)"
  by (simp add: simulation_endpoint_eq args_get_def py_float_abc INITIAL_MASS_def
      lib_writing_def b64encode_png_signature)

section \<open>The encoding of the image\<close>

lemma length_b64_alphabet: "length b64_alphabet = 64"
  by (simp add: b64_alphabet_def)

lemma distinct_b64_alphabet: "distinct b64_alphabet"
  by (simp add: b64_alphabet_def)

lemma pad_not_in_alphabet: "CHR ''='' \<notin> set b64_alphabet"
  by (simp add: b64_alphabet_def)

lemma b64_char_inj: "b64_char i = b64_char j \<longleftrightarrow> i mod 64 = j mod 64"
  unfolding b64_char_def
  by (rule nth_eq_iff_index_eq [OF distinct_b64_alphabet]) (simp_all add: length_b64_alphabet)

lemma b64_char_not_pad: "b64_char i \<noteq> CHR ''=''" "CHR ''='' \<noteq> b64_char i"
proof -
  have "b64_char i \<in> set b64_alphabet"
    unfolding b64_char_def by (rule nth_mem) (simp add: length_b64_alphabet)
  with pad_not_in_alphabet show "b64_char i \<noteq> CHR ''=''" "CHR ''='' \<noteq> b64_char i"
    by auto
qed

lemma sextet_step: "a mod 64 = b mod 64 \<Longrightarrow> a div 64 = b div 64 \<Longrightarrow> a = (b::nat)"
  by (metis div_mult_mod_eq)

lemma sextets2_eq:
  fixes n m :: nat
  assumes "n < 16777216" "m < 16777216"
    and "b64_char (n div 262144) = b64_char (m div 262144)"
    and "b64_char (n div 4096) = b64_char (m div 4096)"
  shows "n div 4096 = m div 4096"
proof -
  have "n div 262144 < 64" "m div 262144 < 64" using assms(1,2) by simp_all
  then have a: "n div 262144 = m div 262144" using assms(3) by (simp add: b64_char_inj)
  have "n div 4096 div 64 = m div 4096 div 64"
    using a by (simp add: div_mult2_eq [symmetric])
  moreover have "n div 4096 mod 64 = m div 4096 mod 64"
    using assms(4) by (simp add: b64_char_inj)
  ultimately show ?thesis
    by (rule sextet_step [rotated])
qed

lemma sextets3_eq:
  fixes n m :: nat
  assumes "n < 16777216" "m < 16777216"
    and "b64_char (n div 262144) = b64_char (m div 262144)"
    and "b64_char (n div 4096) = b64_char (m div 4096)"
    and "b64_char (n div 64) = b64_char (m div 64)"
  shows "n div 64 = m div 64"
proof -
  have b: "n div 4096 = m div 4096"
    using assms(1-4) by (rule sextets2_eq)
  have "n div 64 div 64 = m div 64 div 64"
    using b by (simp add: div_mult2_eq [symmetric])
  moreover have "n div 64 mod 64 = m div 64 mod 64"
    using assms(5) by (simp add: b64_char_inj)
  ultimately show ?thesis
    by (rule sextet_step [rotated])
qed

lemma sextets4_eq:
  fixes n m :: nat
  assumes "n < 16777216" "m < 16777216"
    and "b64_char (n div 262144) = b64_char (m div 262144)"
    and "b64_char (n div 4096) = b64_char (m div 4096)"
    and "b64_char (n div 64) = b64_char (m div 64)"
    and "b64_char n = b64_char m"
  shows "n = m"
proof -
  have "n div 64 = m div 64"
    using assms(1-5) by (rule sextets3_eq)
  moreover have "n mod 64 = m mod 64"
    using assms(6) by (simp add: b64_char_inj)
  ultimately show ?thesis
    by (rule sextet_step [rotated])
qed

lemma split_base:
  fixes a r a' r' k :: nat
  assumes "r < k" "r' < k" and eq: "a * k + r = a' * k + r'"
  shows "a = a' \<and> r = r'"
proof -
  have "(a * k + r) div k = a" "(a * k + r) mod k = r"
    using assms(1) by simp_all
  moreover have "(a' * k + r') div k = a'" "(a' * k + r') mod k = r'"
    using assms(2) by simp_all
  ultimately show ?thesis
    using eq by metis
qed

lemma bytes3_eq:
  fixes a b c a' b' c' :: nat
  assumes "b < 256" "c < 256" "b' < 256" "c' < 256"
    and eq: "a * 65536 + b * 256 + c = a' * 65536 + b' * 256 + c'"
  shows "a = a' \<and> b = b' \<and> c = c'"
proof -
  have "b * 256 + c < 65536" "b' * 256 + c' < 65536"
    using assms(1-4) by simp_all
  moreover have "a * 65536 + (b * 256 + c) = a' * 65536 + (b' * 256 + c')"
    using eq by simp
  ultimately have hi: "a = a' \<and> b * 256 + c = b' * 256 + c'"
    by (rule split_base)
  then have "b * 256 + c = b' * 256 + c'"
    by (rule conjunct2)
  with assms(2,4) have "b = b' \<and> c = c'"
    by (rule split_base)
  with hi show ?thesis by (simp only: simp_thms)
qed

lemma unat_byte: "unat (a::byte) < 256"
proof -
  have "unat a < 2 ^ LENGTH(8)" by (rule unsigned_less)
  then show ?thesis by simp
qed

lemma group_bound: "unat (a::byte) * 65536 + unat (b::byte) * 256 + unat (c::byte) < 16777216"
  using unat_byte [of a] unat_byte [of b] unat_byte [of c] by simp

lemma group_eq:
  fixes a b c a' b' c' :: byte
  assumes "unat a * 65536 + unat b * 256 + unat c = unat a' * 65536 + unat b' * 256 + unat c'"
  shows "a = a' \<and> b = b' \<and> c = c'"
proof -
  have "unat a = unat a' \<and> unat b = unat b' \<and> unat c = unat c'"
    using unat_byte [of b] unat_byte [of c] unat_byte [of b'] unat_byte [of c'] assms
    by (rule bytes3_eq)
  then show ?thesis
    by (simp add: word_unat_eq_iff)
qed

lemma b64encode_3_inj:
  assumes "b64encode (a # b # c # rest) = b64encode (a' # b' # c' # rest')"
  shows "a = a' \<and> b = b' \<and> c = c' \<and> b64encode rest = b64encode rest'"
proof -
  let ?n = "unat a * 65536 + unat b * 256 + unat c"
  let ?m = "unat a' * 65536 + unat b' * 256 + unat c'"
  have eqs: "b64_char (?n div 262144) = b64_char (?m div 262144)"
    "b64_char (?n div 4096) = b64_char (?m div 4096)"
    "b64_char (?n div 64) = b64_char (?m div 64)"
    "b64_char ?n = b64_char ?m"
    and tails: "b64encode rest = b64encode rest'"
    using assms
    by (simp_all only: b64encode.simps Let_def list.inject append_Cons append_Nil simp_thms)
  have "?n = ?m"
    using group_bound group_bound eqs by (rule sextets4_eq)
  then have "a = a' \<and> b = b' \<and> c = c'"
    by (rule group_eq)
  then show ?thesis using tails by (simp only: simp_thms)
qed

text \<open>A final group of one or two bytes is a full group whose missing bytes are zero.\<close>

lemma b64encode_2_inj:
  assumes "b64encode [a, b] = b64encode [a', b']"
  shows "a = a' \<and> b = b'"
proof -
  let ?n = "unat a * 65536 + unat b * 256"
  let ?m = "unat a' * 65536 + unat b' * 256"
  have eqs: "b64_char (?n div 262144) = b64_char (?m div 262144)"
    "b64_char (?n div 4096) = b64_char (?m div 4096)"
    "b64_char (?n div 64) = b64_char (?m div 64)"
    using assms by (simp_all only: b64encode.simps Let_def list.inject simp_thms)
  have bounds: "?n < 16777216" "?m < 16777216"
    using group_bound [of a b 0] group_bound [of a' b' 0] by simp_all
  have d: "?n div 64 = ?m div 64"
    using bounds eqs by (rule sextets3_eq)
  have "64 dvd ?n" "64 dvd ?m"
    by simp_all
  then have "?n mod 64 = ?m mod 64"
    by (simp only: dvd_imp_mod_0)
  then have "?n = ?m" using d by (rule sextet_step)
  then have "?n + unat (0::byte) = ?m + unat (0::byte)"
    by simp
  then have "a = a' \<and> b = b' \<and> (0::byte) = 0"
    by (rule group_eq)
  then show ?thesis by simp
qed

lemma b64encode_1_inj:
  assumes "b64encode [a] = b64encode [a']"
  shows "a = a'"
proof -
  let ?n = "unat a * 65536"
  let ?m = "unat a' * 65536"
  have eqs: "b64_char (?n div 262144) = b64_char (?m div 262144)"
    "b64_char (?n div 4096) = b64_char (?m div 4096)"
    using assms by (simp_all only: b64encode.simps Let_def list.inject simp_thms)
  have bounds: "?n < 16777216" "?m < 16777216"
    using group_bound [of a 0 0] group_bound [of a' 0 0] by simp_all
  have d: "?n div 4096 = ?m div 4096"
    using bounds eqs by (rule sextets2_eq)
  have "4096 dvd ?n" "4096 dvd ?m"
    by simp_all
  then have "?n mod 4096 = ?m mod 4096"
    by (simp only: dvd_imp_mod_0)
  then have "?n = ?m" using d by (metis div_mult_mod_eq)
  then have "?n + unat (0::byte) * 256 + unat (0::byte) = ?m + unat (0::byte) * 256 + unat (0::byte)"
    by simp
  then have "a = a' \<and> (0::byte) = 0 \<and> (0::byte) = 0"
    by (rule group_eq)
  then show ?thesis by simp
qed

lemma b64encode_inj: "b64encode xs = b64encode ys \<Longrightarrow> xs = ys"
proof (induction xs arbitrary: ys rule: b64encode.induct)
  case 1
  then show ?case
    by (cases ys rule: b64encode.cases) (simp_all add: Let_def)
next
  case (2 a)
  show ?case
  proof (cases ys rule: b64encode.cases)
    case (2 a')
    from "2.prems" have "b64encode [a] = b64encode [a']"
      by (simp only: 2)
    then have "a = a'" by (rule b64encode_1_inj)
    then show ?thesis by (simp only: 2)
  qed (use "2.prems" in \<open>simp_all add: Let_def b64_char_not_pad\<close>)
next
  case (3 a b)
  show ?case
  proof (cases ys rule: b64encode.cases)
    case (3 a' b')
    from "3.prems" have "b64encode [a, b] = b64encode [a', b']"
      by (simp only: 3)
    then have "a = a' \<and> b = b'" by (rule b64encode_2_inj)
    then show ?thesis by (simp only: 3 simp_thms)
  qed (use "3.prems" in \<open>simp_all add: Let_def b64_char_not_pad\<close>)
next
  case (4 a b c rest)
  show ?case
  proof (cases ys rule: b64encode.cases)
    case (4 a' b' c' rest')
    from "4.prems" have "b64encode (a # b # c # rest) = b64encode (a' # b' # c' # rest')"
      by (simp only: 4)
    then have heads: "a = a' \<and> b = b' \<and> c = c' \<and> b64encode rest = b64encode rest'"
      by (rule b64encode_3_inj)
    then have "rest = rest'"
      using "4.IH" [OF refl] by (simp only: simp_thms)
    with heads show ?thesis by (simp only: 4 simp_thms)
  qed (use "4.prems" in \<open>simp_all add: Let_def b64_char_not_pad\<close>)
qed

text \<open>The encoder on the test vectors of RFC 4648, the bytes of \<open>foobar\<close> and its prefixes.\<close>

lemma b64encode_test_vectors:
  "b64encode [] = []"
  "b64encode [102] = ''Zg==''"
  "b64encode [102, 111] = ''Zm8=''"
  "b64encode [102, 111, 111] = ''Zm9v''"
  "b64encode [102, 111, 111, 98] = ''Zm9vYg==''"
  "b64encode [102, 111, 111, 98, 97] = ''Zm9vYmE=''"
  "b64encode [102, 111, 111, 98, 97, 114] = ''Zm9vYmFy''"
  by (simp_all add: b64_char_def b64_alphabet_def Let_def)

text \<open>
  Claim C6. When \<open>savefig\<close> returns the bytes \<open>png\<close>, the plotting function returns the
  text \<open>data:image/png;base64,\<close> followed by the base64 encoding of exactly these bytes,
  and it returns image data in no other case. The success response of the handler
  carries this text as \<open>image_data\<close>. Nothing is lost on the way: image data that are
  equal come from equal bytes.
\<close>

theorem image_data_is_prefixed_base64:
  "(fst (savefig L (drawn_figure m s) ''png'' ''tight'' (lib_state s)) = Inr png \<longrightarrow>
      fst (generate_plot_image L m s) = Inr (''data:image/png;base64,'' @ b64encode png)) \<and>
   (fst (generate_plot_image L m s) = Inr image_data \<longrightarrow>
      (\<exists>bytes. fst (savefig L (drawn_figure m s) ''png'' ''tight'' (lib_state s)) = Inr bytes \<and>
         image_data = ''data:image/png;base64,'' @ b64encode bytes)) \<and>
   (fst (savefig L (drawn_figure (args_get args ''mass'' INITIAL_MASS py_float) s)
           ''png'' ''tight'' (lib_state s)) = Inr png \<longrightarrow>
      fst (simulation_endpoint L args s) =
        ([(''status'', JString ''success''),
          (''mass_used'', JNumber (args_get args ''mass'' INITIAL_MASS py_float)),
          (''image_data'', JString (''data:image/png;base64,'' @ b64encode png))], 200)) \<and>
   (''data:image/png;base64,'' @ b64encode png = ''data:image/png;base64,'' @ b64encode png' \<longrightarrow>
      png = png')"
proof -
  have a: "fst (savefig L (drawn_figure m s) ''png'' ''tight'' (lib_state s)) = Inr png \<longrightarrow>
      fst (generate_plot_image L m s) = Inr (''data:image/png;base64,'' @ b64encode png)"
    by (simp add: fst_generate_plot_image)
  have b: "fst (generate_plot_image L m s) = Inr image_data \<longrightarrow>
      (\<exists>bytes. fst (savefig L (drawn_figure m s) ''png'' ''tight'' (lib_state s)) = Inr bytes \<and>
         image_data = ''data:image/png;base64,'' @ b64encode bytes)"
    by (cases "fst (savefig L (drawn_figure m s) ''png'' ''tight'' (lib_state s))")
      (auto simp: fst_generate_plot_image)
  have c: "fst (savefig L (drawn_figure (args_get args ''mass'' INITIAL_MASS py_float) s)
           ''png'' ''tight'' (lib_state s)) = Inr png \<longrightarrow>
      fst (simulation_endpoint L args s) =
        ([(''status'', JString ''success''),
          (''mass_used'', JNumber (args_get args ''mass'' INITIAL_MASS py_float)),
          (''image_data'', JString (''data:image/png;base64,'' @ b64encode png))], 200)"
    by (cases "savefig L (drawn_figure (args_get args ''mass'' INITIAL_MASS py_float) s)
           ''png'' ''tight'' (lib_state s)")
      (simp add: simulation_endpoint_eq)
  have d: "''data:image/png;base64,'' @ b64encode png = ''data:image/png;base64,'' @ b64encode png' \<longrightarrow>
      png = png'"
  proof
    assume "''data:image/png;base64,'' @ b64encode png = ''data:image/png;base64,'' @ b64encode png'"
    then have "b64encode png = b64encode png'"
      by (simp only: same_append_eq)
    then show "png = png'"
      by (rule b64encode_inj)
  qed
  show ?thesis
    by (intro conjI a b c d)
qed

theorem image_data_is_prefixed_base64_witness:
  "fst (savefig lib_writing (drawn_figure (Fin 10) module_init) ''png'' ''tight''
          (lib_state module_init)) = Inr png_signature \<and>
   fst (generate_plot_image lib_writing (Fin 10) module_init) =
     Inr ''data:image/png;base64,iVBORw0KGgo='' \<and>
   fst (simulation_endpoint lib_writing [(''mass'', ''10.0'')] module_init) =
     ([(''status'', JString ''success''), (''mass_used'', JNumber (Fin 10)),
       (''image_data'', JString ''data:image/png;base64,iVBORw0KGgo='')], 200)"
proof -
  have m: "args_get [(''mass'', ''10.0'')] ''mass'' INITIAL_MASS py_float = Fin 10"
    by (simp add: args_get_def py_float_10_0)
  have s: "fst (savefig lib_writing (drawn_figure (Fin 10) module_init) ''png'' ''tight''
          (lib_state module_init)) = Inr png_signature"
    by (simp add: lib_writing_def)
  note inst = image_data_is_prefixed_base64
    [of lib_writing "Fin 10" module_init png_signature _ "[(''mass'', ''10.0'')]"]
  from inst [THEN conjunct1, rule_format, OF s]
  have g: "fst (generate_plot_image lib_writing (Fin 10) module_init) =
     Inr ''data:image/png;base64,iVBORw0KGgo=''"
    by (simp only: b64encode_png_signature append.simps)
  from inst [THEN conjunct2, THEN conjunct2, THEN conjunct1, unfolded m, rule_format, OF s]
  have h: "fst (simulation_endpoint lib_writing [(''mass'', ''10.0'')] module_init) =
     ([(''status'', JString ''success''), (''mass_used'', JNumber (Fin 10)),
       (''image_data'', JString ''data:image/png;base64,iVBORw0KGgo='')], 200)"
    by (simp only: b64encode_png_signature append.simps)
  from s g h show ?thesis
    by (intro conjI)
qed

end
